theory Spec2Isabelle
  imports Main "HOL-Library.Word" "HOL-Library.Signed_Division"
begin

unbundle bit_operations_syntax

section \<open>Data on the wire (message.h)\<close>

text \<open>
  The C types of the sources, on the ABI the programs are built for (POSIX, LP64):
  \<open>char\<close> is a signed 8-bit value (read with \<open>sint\<close>), \<open>uint32_t\<close> a 32-bit word,
  \<open>int\<close> a 32-bit two's complement value (read with \<open>sint\<close>, conversions from
  \<open>uint32_t\<close> keep the bits) and \<open>size_t\<close> a 64-bit word (the conversion from \<open>int\<close>
  extends the sign).
\<close>

type_synonym byte = "8 word"
type_synonym uint32_t = "32 word"
type_synonym c_int = "32 word"
type_synonym size_t = "64 word"

record message_header =
  message_type :: byte
  message_size :: uint32_t

text \<open>
  One \<open>write\<close> call puts one packet on the socket: either a \<open>message_header\<close> struct
  or a raw buffer.
\<close>

datatype packet = Hdr message_header | Raw "byte list"

definition BLKSIZE :: nat where
  "BLKSIZE = 512"

definition MAX_ALLOCATION_SIZE :: nat where
  "MAX_ALLOCATION_SIZE = 1024"

definition DIVISOR :: int where
  "DIVISOR = 32"

text \<open>The character constant \<open>'f'\<close>.\<close>

definition tag_f :: byte where
  "tag_f = 0x66"

text \<open>
  The header goes over the socket as the struct itself: \<open>write(socket_fd, &header,
  sizeof(message_header))\<close>, and likewise for \<open>read\<close>. The struct is not declared packed,
  so its layout is the ABI's: every member lies at the next offset that is a multiple of
  its alignment, and the size of the struct is a multiple of the largest alignment among
  its members. A member is given here by its size and its alignment: \<open>char\<close> is
  \<open>(1, 1)\<close>, \<open>uint32_t\<close> is \<open>(4, 4)\<close>.
\<close>

definition align_up :: "nat \<Rightarrow> nat \<Rightarrow> nat" where
  "align_up a n = ((n + a - 1) div a) * a"

fun member_offsets :: "nat \<Rightarrow> (nat \<times> nat) list \<Rightarrow> nat list" where
  "member_offsets off [] = []"
| "member_offsets off ((sz, al) # ms) =
     align_up al off # member_offsets (align_up al off + sz) ms"

fun members_end :: "nat \<Rightarrow> (nat \<times> nat) list \<Rightarrow> nat" where
  "members_end off [] = off"
| "members_end off ((sz, al) # ms) = members_end (align_up al off + sz) ms"

definition sizeof_struct :: "(nat \<times> nat) list \<Rightarrow> nat" where
  "sizeof_struct ms = align_up (foldr max (map snd ms) 1) (members_end 0 ms)"

definition message_header_members :: "(nat \<times> nat) list" where
  "message_header_members = [(1, 1), (4, 4)]"

definition sizeof_message_header :: nat where
  "sizeof_message_header = sizeof_struct message_header_members"

text \<open>
  The byte count of the \<open>write\<close> call that puts a packet on the socket:
  \<open>sizeof(message_header)\<close> for a header, the length of the buffer otherwise.
\<close>

definition write_count :: "packet \<Rightarrow> nat" where
  "write_count p = (case p of Hdr header \<Rightarrow> sizeof_message_header | Raw bytes \<Rightarrow> length bytes)"

section \<open>The segment checksum\<close>

text \<open>
  \<^verbatim>\<open>
  int checksum = 0;
  for(int i=0; i<read_size; i++){ checksum += (int) buffer[i]; }
  checksum = checksum % DIVISOR;
  \<close>
  The accumulator is a C \<open>int\<close>; a segment of this protocol has at most 513 bytes, far
  from its range, so the sum is taken in \<open>int\<close>. C's \<open>%\<close> truncates towards zero:
  \<open>smod\<close>.
\<close>

definition block_sum :: "byte list \<Rightarrow> int" where
  "block_sum buffer = sum_list (map sint buffer)"

definition checksum :: "byte list \<Rightarrow> int" where
  "checksum buffer = block_sum buffer smod DIVISOR"

text \<open>\<open>(char) checksum\<close>, the byte appended to the payload.\<close>

definition checksum_byte :: "byte list \<Rightarrow> byte" where
  "checksum_byte buffer = word_of_int (checksum buffer)"

section \<open>The server's send path (server.c)\<close>

text \<open>
  The client socket as the server sees it: the packets written so far, and how many more
  \<open>write\<close> calls succeed before the peer is gone (\<open>None\<close>: every write succeeds).
\<close>

record sock_out =
  written :: "packet list"
  fail_after :: "nat option"

text \<open>\<open>write(socket_fd, ...)\<close>; \<open>None\<close> is the return value \<open>-1\<close>.\<close>

definition sock_write :: "packet \<Rightarrow> sock_out \<Rightarrow> sock_out option" where
  "sock_write p s =
     (case fail_after s of
        None \<Rightarrow> Some (s\<lparr>written := written s @ [p]\<rparr>)
      | Some 0 \<Rightarrow> None
      | Some (Suc k) \<Rightarrow> Some \<lparr>written = written s @ [p], fail_after = Some k\<rparr>)"

text \<open>
  An open \<open>FILE*\<close> for reading: the bytes not yet read, the end-of-file indicator, and
  how many more \<open>fread\<close> calls the device serves before it fails (\<open>None\<close>: never fails).
\<close>

record rstream =
  unread :: "byte list"
  eof :: bool
  err_after :: "nat option"

text \<open>
  \<open>fread(buffer, 1, n, file)\<close>: the bytes obtained and the stream afterwards. The
  end-of-file indicator is set when fewer than \<open>n\<close> bytes were left; a failing device
  delivers nothing and leaves the indicator as it was.
\<close>

definition fread :: "nat \<Rightarrow> rstream \<Rightarrow> byte list \<times> rstream" where
  "fread n file =
     (case err_after file of
        Some 0 \<Rightarrow> ([], file)
      | Some (Suc k) \<Rightarrow>
          (take n (unread file),
           \<lparr>unread = drop n (unread file),
            eof = (eof file \<or> length (unread file) < n),
            err_after = Some k\<rparr>)
      | None \<Rightarrow>
          (take n (unread file),
           file\<lparr>unread := drop n (unread file),
                eof := (eof file \<or> length (unread file) < n)\<rparr>))"

text \<open>
  The \<open>while (sent_size < filesize)\<close> loop of \<open>send_file\<close>. The result is the return
  value and the socket; \<open>None\<close> means that the loop never returns.
\<close>

partial_function (option) send_loop ::
  "uint32_t \<Rightarrow> uint32_t \<Rightarrow> rstream \<Rightarrow> sock_out \<Rightarrow> (int \<times> sock_out) option" where
  "send_loop filesize sent_size file sock =
     (if sent_size < filesize then
        (case fread BLKSIZE file of
           (buffer, file') \<Rightarrow>
             if length buffer < BLKSIZE \<and> \<not> eof file' then Some (-1, sock)
             else
               (case sock_write (Hdr \<lparr>message_type = tag_f,
                                       message_size = of_nat (length buffer)\<rparr>) sock of
                  None \<Rightarrow> Some (-1, sock)
                | Some sock1 \<Rightarrow>
                    (case sock_write (Raw (buffer @ [checksum_byte buffer])) sock1 of
                       None \<Rightarrow> Some (-1, sock1)
                     | Some sock2 \<Rightarrow>
                         send_loop filesize (sent_size + of_nat (length buffer)) file' sock2)))
      else Some (0, sock))"

declare send_loop.simps [code]

text \<open>
  The file system as the programs see it: the content stored under each path. C strings
  (\<open>argv[1]\<close>, file names) are the bytes before the terminating NUL.
\<close>

type_synonym files = "byte list \<rightharpoonup> byte list"

text \<open>
  What the operating system may refuse the server while it handles one connection, and
  what the socket delivers to its two \<open>read\<close> calls (\<open>None\<close>: the call returned
  \<open>-1\<close>).
\<close>

record server_env =
  req_hdr :: "message_header option"
  name_alloc_ok :: bool
  req_payload :: "byte list option"
  stat_fails :: bool
  fopen_r_ok :: bool
  calloc_ok :: bool
  disk_err_after :: "nat option"
  peer_gone_after :: "nat option"

text \<open>
  \<open>send_file\<close>: \<open>fopen(filename, "r")\<close>, \<open>calloc\<close>, then the loop with
  \<open>sent_size = 0\<close>.
\<close>

definition send_file ::
  "server_env \<Rightarrow> files \<Rightarrow> sock_out \<Rightarrow> byte list \<Rightarrow> uint32_t \<Rightarrow> (int \<times> sock_out) option" where
  "send_file env fs sock filename filesize =
     (case (if fopen_r_ok env then fs filename else None) of
        None \<Rightarrow> Some (-1, sock)
      | Some content \<Rightarrow>
          if \<not> calloc_ok env then Some (-1, sock)
          else send_loop filesize 0
                 \<lparr>unread = content, eof = False, err_after = disk_err_after env\<rparr> sock)"

section \<open>The client's receive path (client.c)\<close>

text \<open>
  \<open>realloc(buffer, n)\<close> returns \<open>NULL\<close> and leaves the old block as it was, or returns a
  block with room for the \<open>n\<close> bytes asked for and, from the allocator's rounding of
  sizes, for \<open>slack\<close> bytes more; a store beyond that room leaves the block.
\<close>

datatype realloc_result = Null | Block nat

text \<open>
  What one iteration of the receive loop gets from its environment: the result of the
  header \<open>read\<close> for the byte count it asks for, the result of \<open>realloc\<close>, the bytes the
  socket holds for the segment \<open>read\<close> (\<open>None\<close>: the call returned \<open>-1\<close>; the call takes
  at most as many as it asks for), and how many items \<open>fwrite\<close> manages to write
  (\<open>None\<close>: all of them).
\<close>

record seg_io =
  hdr_read :: "nat \<Rightarrow> message_header option"
  realloc :: realloc_result
  seg_read :: "byte list option"
  fwrite_limit :: "nat option"

text \<open>
  How the loop is left: normally, with the bytes written to the output file; through one
  of the exits that close the file and return \<open>-1\<close>; through the exit that also removes
  the file; with an access outside the buffer; or with a second \<open>free\<close> of the buffer.
\<close>

datatype loop_exit =
    Done "byte list"
  | Io_failure "byte list"
  | Wrong_checksum
  | Out_of_bounds
  | Double_free

text \<open>
  The test \<open>checksum != (int) buffer[read_size-1]\<close> on the \<open>read_size\<close> bytes obtained,
  negated: the sum runs over the first \<open>read_size-1\<close> bytes.
\<close>

definition checksum_ok :: "byte list \<Rightarrow> bool" where
  "checksum_ok got = (checksum (butlast got) = sint (last got))"

text \<open>\<open>fwrite(buffer, 1, n, file)\<close>: the bytes that reach the file.\<close>

definition fwrite :: "nat option \<Rightarrow> byte list \<Rightarrow> byte list" where
  "fwrite limit items = (case limit of None \<Rightarrow> items | Some k \<Rightarrow> take k items)"

text \<open>
  The \<open>while (received_size < filesize)\<close> loop of \<open>receive_file\<close>, from a state in which
  \<open>buffer\<close> points to a block (\<open>live\<close>) or is \<open>NULL\<close>; \<open>out\<close> is what has been written
  to the output file.
  \<^item> The buffer is adjusted with \<open>realloc(buffer, header.message_size)\<close>. With a size of 0
    and a live buffer the C library frees the block and returns \<open>NULL\<close>; the exit taken
    then frees \<open>buffer\<close> a second time.
  \<^item> The segment read asks for \<open>header.message_size+1\<close> bytes, computed in \<open>uint32_t\<close>,
    and stores what it obtains in the block of \<open>header.message_size\<close> bytes: the last byte
    of a full read lies in the allocator's slack, or outside the block when there is
    none.
  \<^item> With \<open>read_size = 0\<close> the source indexes \<open>buffer[read_size-1]\<close>, outside the block.
    At the end of the stream (no iteration left to serve) both reads return 0, and the
    run ends there.
\<close>

fun receive_loop_from ::
  "bool \<Rightarrow> size_t \<Rightarrow> size_t \<Rightarrow> byte list \<Rightarrow> seg_io list \<Rightarrow> loop_exit" where
  "receive_loop_from live filesize received_size out [] =
     (if received_size < filesize then Out_of_bounds else Done out)"
| "receive_loop_from live filesize received_size out (io # ios) =
     (if received_size < filesize then
        (case hdr_read io sizeof_message_header of
           None \<Rightarrow> Io_failure out
         | Some header \<Rightarrow>
             if live \<and> message_size header = 0 then Double_free
             else
               (case realloc io of
                  Null \<Rightarrow> Io_failure out
                | Block slack \<Rightarrow>
                    (case seg_read io of
                       None \<Rightarrow> Io_failure out
                     | Some bytes \<Rightarrow>
                         let got = take (unat (message_size header + 1)) bytes in
                         if unat (message_size header) + slack < length got then Out_of_bounds
                         else if got = [] then Out_of_bounds
                         else if \<not> checksum_ok got then Wrong_checksum
                         else if fwrite (fwrite_limit io) (butlast got) \<noteq> butlast got
                           then Io_failure (out @ fwrite (fwrite_limit io) (butlast got))
                         else receive_loop_from True filesize
                                (received_size + of_nat (length got - 1))
                                (out @ butlast got) ios)))
      else Done out)"

text \<open>The loop as \<open>receive_file\<close> enters it: \<open>char* buffer = NULL\<close>.\<close>

definition receive_loop :: "size_t \<Rightarrow> size_t \<Rightarrow> byte list \<Rightarrow> seg_io list \<Rightarrow> loop_exit" where
  "receive_loop filesize received_size out ios =
     receive_loop_from False filesize received_size out ios"

text \<open>The literal \<open>"received_"\<close>.\<close>

definition received_prefix :: "byte list" where
  "received_prefix = [0x72, 0x65, 0x63, 0x65, 0x69, 0x76, 0x65, 0x64, 0x5F]"

record recv_env =
  name_malloc_ok :: bool
  fopen_w_ok :: bool
  segments_in :: "seg_io list"

text \<open>
  A call either returns, or runs into one of the two faults above, after which nothing
  is known of the process.
\<close>

datatype 'a outcome = Returns 'a | Undefined

text \<open>
  \<open>receive_file\<close>: the output name is built with \<open>sprintf(filename_buffer,
  "received_%s", filename)\<close>; \<open>fopen(..., "w")\<close> creates the file empty; every exit
  closes it, and the checksum exit removes it. The result is the return value and the
  files afterwards.
\<close>

definition receive_file ::
  "recv_env \<Rightarrow> files \<Rightarrow> byte list \<Rightarrow> size_t \<Rightarrow> (int \<times> files) outcome" where
  "receive_file env fs filename filesize =
     (if \<not> name_malloc_ok env then Returns (-1, fs)
      else
        let filename_buffer = received_prefix @ filename in
        if \<not> fopen_w_ok env then Returns (-1, fs)
        else
          (case receive_loop filesize 0 [] (segments_in env) of
             Done out \<Rightarrow> Returns (0, fs(filename_buffer \<mapsto> out))
           | Io_failure out \<Rightarrow> Returns (-1, fs(filename_buffer \<mapsto> out))
           | Wrong_checksum \<Rightarrow> Returns (-1, fs(filename_buffer := None))
           | Out_of_bounds \<Rightarrow> Undefined
           | Double_free \<Rightarrow> Undefined))"

section \<open>The client's session (client.c)\<close>

text \<open>
  \<open>request_file\<close>: the header carries \<open>strlen(filename) + 1\<close>, the payload is the name
  with its terminating NUL.
\<close>

definition request_file :: "byte list \<Rightarrow> sock_out \<Rightarrow> int \<times> sock_out" where
  "request_file filename sock =
     (case sock_write (Hdr \<lparr>message_type = tag_f,
                             message_size = of_nat (length filename + 1)\<rparr>) sock of
        None \<Rightarrow> (-1, sock)
      | Some sock1 \<Rightarrow>
          (case sock_write (Raw (filename @ [0])) sock1 of
             None \<Rightarrow> (-1, sock1)
           | Some sock2 \<Rightarrow> (0, sock2)))"

text \<open>
  \<open>await_initial_server_reply\<close> returns \<open>header.message_size\<close> as an \<open>int\<close>.
\<close>

definition await_initial_server_reply :: "message_header option \<Rightarrow> c_int" where
  "await_initial_server_reply reply =
     (case reply of
        None \<Rightarrow> - 1
      | Some header \<Rightarrow> if message_type header \<noteq> tag_f then - 1 else message_size header)"

text \<open>
  The client's environment: whether \<open>init_and_connect\<close> succeeds, how many writes the
  socket takes, the result of the reply \<open>read\<close>, the characters waiting on standard input,
  and the environment of \<open>receive_file\<close>.
\<close>

record client_env =
  connect_ok :: bool
  server_gone_after :: "nat option"
  reply_read :: "message_header option"
  stdin :: "byte list"
  recv :: recv_env

datatype exit_status = EXIT_SUCCESS | EXIT_FAILURE

text \<open>
  How the client process ends: its exit status, what it wrote to the socket, its files,
  and what it left on standard input.
\<close>

record client_end =
  exit_code :: exit_status
  requests :: "packet list"
  client_files :: files
  stdin_left :: "byte list"

text \<open>
  \<open>main\<close> of the client; \<open>args\<close> is \<open>argv\<close> after the program name. \<open>scanf("%c",
  &response)\<close> takes one character from standard input; with none there, \<open>response\<close> is
  read uninitialised. The \<open>int\<close> \<open>filesize\<close> is passed as a \<open>size_t\<close>.
\<close>

definition client_main :: "client_env \<Rightarrow> byte list list \<Rightarrow> files \<Rightarrow> client_end outcome" where
  "client_main env args fs =
     (case args of
        [] \<Rightarrow> Returns \<lparr>exit_code = EXIT_FAILURE, requests = [], client_files = fs,
                        stdin_left = stdin env\<rparr>
      | requested_filename # _ \<Rightarrow>
          if \<not> connect_ok env
          then Returns \<lparr>exit_code = EXIT_FAILURE, requests = [], client_files = fs,
                        stdin_left = stdin env\<rparr>
          else
            (case request_file requested_filename
                    \<lparr>written = [], fail_after = server_gone_after env\<rparr> of
               (rc, sock) \<Rightarrow>
                 if rc = - 1
                 then Returns \<lparr>exit_code = EXIT_FAILURE, requests = written sock,
                               client_files = fs, stdin_left = stdin env\<rparr>
                 else
                   let filesize = await_initial_server_reply (reply_read env) in
                   if filesize = - 1
                   then Returns \<lparr>exit_code = EXIT_FAILURE, requests = written sock,
                                 client_files = fs, stdin_left = stdin env\<rparr>
                   else if filesize = 0
                   then Returns \<lparr>exit_code = EXIT_SUCCESS, requests = written sock,
                                 client_files = fs, stdin_left = stdin env\<rparr>
                   else
                     (case stdin env of
                        [] \<Rightarrow> Undefined
                      | response # rest \<Rightarrow>
                          if response = 0x59 \<or> response = 0x79
                          then
                            (case receive_file (recv env) fs requested_filename
                                    (scast filesize) of
                               Undefined \<Rightarrow> Undefined
                             | Returns (ret, fs') \<Rightarrow>
                                 Returns \<lparr>exit_code = EXIT_SUCCESS, requests = written sock,
                                          client_files = fs', stdin_left = rest\<rparr>)
                          else Returns \<lparr>exit_code = EXIT_SUCCESS, requests = written sock,
                                        client_files = fs, stdin_left = rest\<rparr>)))"

section \<open>The server's session (server.c)\<close>

text \<open>
  \<open>accept_file_request\<close>: the name buffer that was read (\<open>None\<close> is \<open>NULL\<close>), and the
  sizes \<open>malloc\<close> was called with.
\<close>

definition accept_file_request :: "server_env \<Rightarrow> byte list option \<times> nat list" where
  "accept_file_request env =
     (case req_hdr env of
        None \<Rightarrow> (None, [])
      | Some header \<Rightarrow>
          if message_type header \<noteq> tag_f then (None, [])
          else if unat (message_size header) > MAX_ALLOCATION_SIZE then (None, [])
          else if \<not> name_alloc_ok env then (None, [unat (message_size header)])
          else
            (case req_payload env of
               None \<Rightarrow> (None, [unat (message_size header)])
             | Some bytes \<Rightarrow>
                 (Some (take (unat (message_size header)) bytes),
                  [unat (message_size header)])))"

text \<open>
  The buffer is used as a C string by \<open>printf("%s")\<close> and \<open>stat\<close>: the bytes before the
  first NUL; without a NUL in the buffer the string runs past it.
\<close>

definition c_string :: "byte list \<Rightarrow> byte list option" where
  "c_string buf = (if 0 \<in> set buf then Some (takeWhile (\<lambda>b. b \<noteq> 0) buf) else None)"

datatype stat_result = ENOENT | Stat_error | Stat_size nat

definition stat :: "server_env \<Rightarrow> files \<Rightarrow> byte list \<Rightarrow> stat_result" where
  "stat env fs filename =
     (if stat_fails env then Stat_error
      else case fs filename of None \<Rightarrow> ENOENT | Some content \<Rightarrow> Stat_size (length content))"

text \<open>
  \<open>check_if_file_exist\<close>: \<open>off_t st_size\<close> is stored in the \<open>uint32_t\<close> field, and the
  field is returned as an \<open>int\<close>.
\<close>

definition check_if_file_exist ::
  "server_env \<Rightarrow> files \<Rightarrow> sock_out \<Rightarrow> byte list \<Rightarrow> c_int \<times> sock_out" where
  "check_if_file_exist env fs sock filename =
     (case (case stat env fs filename of
              ENOENT \<Rightarrow> Some 0
            | Stat_error \<Rightarrow> None
            | Stat_size st_size \<Rightarrow> Some (of_nat st_size)) of
        None \<Rightarrow> (- 1, sock)
      | Some reply_size \<Rightarrow>
          (case sock_write (Hdr \<lparr>message_type = tag_f, message_size = reply_size\<rparr>) sock of
             None \<Rightarrow> (- 1, sock)
           | Some sock' \<Rightarrow> (reply_size, sock')))"

text \<open>
  One round of the server's \<open>while(1)\<close> loop, from the accepted connection on: how the
  round ends and what was written to the client. \<open>None\<close>: \<open>send_file\<close> never returns.
\<close>

datatype server_end = Exit_failure | Connection_closed | Unterminated_name

definition serve_connection :: "server_env \<Rightarrow> files \<Rightarrow> (server_end \<times> sock_out) option" where
  "serve_connection env fs =
     (let sock = \<lparr>written = [], fail_after = peer_gone_after env\<rparr> in
      case fst (accept_file_request env) of
        None \<Rightarrow> Some (Exit_failure, sock)
      | Some buf \<Rightarrow>
          (case c_string buf of
             None \<Rightarrow> Some (Unterminated_name, sock)
           | Some requested_filename \<Rightarrow>
               (case check_if_file_exist env fs sock requested_filename of
                  (ret_val, sock1) \<Rightarrow>
                    if ret_val = - 1 then Some (Exit_failure, sock1)
                    else if ret_val = 0 then Some (Connection_closed, sock1)
                    else
                      (case send_file env fs sock1 requested_filename ret_val of
                         None \<Rightarrow> None
                       | Some (ret, sock2) \<Rightarrow> Some (Connection_closed, sock2)))))"

section \<open>A whole session over a connection that keeps message boundaries\<close>

text \<open>
  The connection hands every \<open>read\<close> the packet of the matching \<open>write\<close>; nothing fails
  on either side, and every block \<open>realloc\<close> returns has \<open>slack\<close> bytes of room beyond the
  size asked for. One segment the server wrote, as an iteration of the client's receive
  loop meets it, and all of them:
\<close>

definition delivered :: "nat \<Rightarrow> message_header \<Rightarrow> byte list \<Rightarrow> seg_io" where
  "delivered slack header bytes =
     \<lparr>hdr_read = (\<lambda>n. Some header), realloc = Block slack, seg_read = Some bytes,
      fwrite_limit = None\<rparr>"

fun frames_in :: "nat \<Rightarrow> packet list \<Rightarrow> seg_io list" where
  "frames_in slack (Hdr header # Raw bytes # ps) =
     delivered slack header bytes # frames_in slack ps"
| "frames_in slack ps = []"

datatype session_end =
    Client_ends "client_end outcome"
  | Server_never_returns
  | No_reply
  | No_request

definition session ::
  "nat \<Rightarrow> files \<Rightarrow> files \<Rightarrow> byte list \<Rightarrow> byte list \<Rightarrow> session_end" where
  "session slack server_fs client_fs filename keys =
     (case written (snd (request_file filename \<lparr>written = [], fail_after = None\<rparr>)) of
        Hdr request # Raw name # _ \<Rightarrow>
          (case serve_connection
                  \<lparr>req_hdr = Some request, name_alloc_ok = True, req_payload = Some name,
                   stat_fails = False, fopen_r_ok = True, calloc_ok = True,
                   disk_err_after = None, peer_gone_after = None\<rparr> server_fs of
             None \<Rightarrow> Server_never_returns
           | Some (e, sock) \<Rightarrow>
               (case written sock of
                  Hdr reply # segments \<Rightarrow>
                    Client_ends
                      (client_main
                         \<lparr>connect_ok = True, server_gone_after = None,
                          reply_read = Some reply, stdin = keys,
                          recv = \<lparr>name_malloc_ok = True, fopen_w_ok = True,
                                  segments_in = frames_in slack segments\<rparr>\<rparr>
                         [filename] client_fs)
                | _ \<Rightarrow> No_reply))
      | _ \<Rightarrow> No_request)"

section \<open>Notions used in the statements\<close>

text \<open>
  The specification's segmentation of a file: consecutive pieces of 512 bytes, the last
  one shorter when the size is not a multiple of 512.
\<close>

fun segments_of :: "byte list \<Rightarrow> byte list list" where
  "segments_of bytes =
     (if bytes = [] then [] else take 512 bytes # segments_of (drop 512 bytes))"

declare segments_of.simps [simp del]

text \<open>
  A segment on the wire: the header with the data length, then the data followed by its
  checksum byte.
\<close>

definition frame :: "byte list \<Rightarrow> packet list" where
  "frame d = [Hdr \<lparr>message_type = tag_f, message_size = of_nat (length d)\<rparr>,
              Raw (d @ [checksum_byte d])]"

text \<open>
  The send loop's state when the file has ended before \<open>filesize\<close> bytes were sent and
  neither the disk nor the socket ever fails.
\<close>

definition starved :: "uint32_t \<Rightarrow> uint32_t \<Rightarrow> rstream \<Rightarrow> sock_out \<Rightarrow> bool" where
  "starved filesize sent_size f sock =
     (unread f = [] \<and> eof f \<and> err_after f = None \<and> fail_after sock = None
      \<and> sent_size < filesize)"

text \<open>
  A segment of the sender's, with data \<open>d\<close>, as an iteration of the receive loop meets it.
\<close>

definition sent_segment :: "nat \<Rightarrow> byte list \<Rightarrow> seg_io" where
  "sent_segment slack d =
     delivered slack \<lparr>message_type = tag_f, message_size = of_nat (length d)\<rparr>
       (d @ [checksum_byte d])"

text \<open>
  What was written to a socket is headed when every raw buffer comes right after a
  header, and every header carries the tag \<open>'f'\<close>.
\<close>

fun headed :: "packet list \<Rightarrow> bool" where
  "headed [] = True"
| "headed (Raw bytes # ps) = False"
| "headed [Hdr header] = (message_type header = tag_f)"
| "headed (Hdr header # Raw bytes # ps) = (message_type header = tag_f \<and> headed ps)"
| "headed (Hdr header # Hdr next_header # ps) =
     (message_type header = tag_f \<and> headed (Hdr next_header # ps))"

section \<open>Arithmetic of the checksum\<close>

lemma smod_32_mod: "(a smod 32) mod 32 = (a::int) mod 32"
proof (cases "0 \<le> a")
  case True
  then show ?thesis by (cases "a = 0") (simp_all add: smod_int_alt_def)
next
  case False
  then have "a smod 32 = - ((- a) mod 32)" by (simp add: smod_int_alt_def)
  then show ?thesis by (simp add: mod_minus_eq)
qed

lemma smod_32_range: "- 32 < (a::int) smod 32 \<and> a smod 32 < 32"
proof (cases "0 \<le> a")
  case True
  then show ?thesis by (cases "a = 0") (simp_all add: smod_int_alt_def)
next
  case False
  then have "a smod 32 = - ((- a) mod 32)" by (simp add: smod_int_alt_def)
  moreover have "0 \<le> (- a) mod 32" "(- a) mod 32 < 32" by simp_all
  ultimately show ?thesis by linarith
qed

lemma sint_mod_32: "sint (b::byte) mod 32 = uint b mod 32"
proof -
  have "uint b = sint b mod 256" by (simp add: uint_sint take_bit_eq_mod)
  then have "uint b mod 32 = (sint b mod 256) mod 32" by simp
  also have "\<dots> = sint b mod 32" by (simp add: mod_mod_cancel)
  finally show ?thesis by simp
qed

text \<open>The checksum fits the \<open>char\<close> it is stored in, so the receiver reads it back unchanged.\<close>

lemma sint_checksum_byte: "sint (checksum_byte buffer) = checksum buffer"
proof -
  have "- 32 < checksum buffer \<and> checksum buffer < 32"
    using smod_32_range [of "block_sum buffer"] by (simp add: checksum_def DIVISOR_def)
  then have "signed_take_bit 7 (checksum buffer) = checksum buffer"
    by (intro signed_take_bit_int_eq_self) simp_all
  then show ?thesis by (simp add: checksum_byte_def sint_sbintrunc')
qed

lemma checksum_ok_sent: "checksum_ok (buffer @ [checksum_byte buffer])"
  by (simp add: checksum_ok_def sint_checksum_byte)

lemma block_sum_update:
  "i < length data \<Longrightarrow> block_sum (data[i := b]) = block_sum data - sint (data ! i) + sint b"
  unfolding block_sum_def
proof (induction data arbitrary: i)
  case Nil
  then show ?case by simp
next
  case (Cons x xs)
  then show ?case by (cases i) simp_all
qed

lemma flip_low_bit_mod_32:
  assumes "k < 5"
  shows "uint (flip_bit k (b::byte)) mod 32 \<noteq> uint b mod 32"
proof
  assume "uint (flip_bit k b) mod 32 = uint b mod 32"
  then have "take_bit 5 (uint (flip_bit k b)) = take_bit 5 (uint b)"
    by (simp add: take_bit_eq_mod)
  then have "bit (take_bit 5 (uint (flip_bit k b))) k = bit (take_bit 5 (uint b)) k"
    by simp
  with assms show False
    by (simp add: bit_take_bit_iff bit_uint_iff bit_flip_bit_iff)
qed

lemma checksum_flip_low_bit:
  assumes "i < length data" and "k < 5"
  shows "checksum (data[i := flip_bit k (data ! i)]) \<noteq> checksum data"
proof
  let ?b = "data ! i"
  let ?S = "block_sum data"
  let ?T = "?S - sint ?b + sint (flip_bit k ?b)"
  assume "checksum (data[i := flip_bit k ?b]) = checksum data"
  then have "?T smod 32 = ?S smod 32"
    using assms(1) by (simp add: checksum_def DIVISOR_def block_sum_update)
  then have "(?T smod 32) mod 32 = (?S smod 32) mod 32"
    by simp
  then have eq: "?T mod 32 = ?S mod 32"
    by (simp only: smod_32_mod)
  have "(?T - ?S) mod 32 = (?S - ?S) mod 32"
    using eq by (rule mod_diff_cong) simp
  then have "(?T - ?S + sint ?b) mod 32 = (?S - ?S + sint ?b) mod 32"
    by (rule mod_add_cong) simp
  then have "sint (flip_bit k ?b) mod 32 = sint ?b mod 32"
    by simp
  then show False
    using flip_low_bit_mod_32 [OF assms(2), of ?b] by (simp add: sint_mod_32)
qed

section \<open>Checksum sensitivity\<close>

text \<open>
  C5, as stated: every single-bit flip in one data byte makes the receiver's check fail.
  It does not: the segment with the single data byte \<open>0x00\<close> carries the checksum byte
  0; with bit 5 of the data byte flipped the receiver sums \<open>0x20 = 32\<close>, and
  \<open>32 % 32 = 0\<close> again, so the segment is accepted.
\<close>

theorem checksum_bit5_flip_undetected:
  "checksum_ok ([0x00][0 := flip_bit 5 ([0x00] ! 0)] @ [checksum_byte [0x00]])"
  by (simp add: checksum_ok_def checksum_def checksum_byte_def block_sum_def DIVISOR_def
      smod_int_alt_def)

text \<open>
  C5, amended: for every segment data buffer, flipping one of the five low bits (bits 0
  to 4) of any one data byte before it reaches the receiver makes the recomputed checksum
  differ from the transmitted checksum byte, so the segment's check fails.
\<close>

theorem checksum_detects_low_bit_flip:
  assumes "i < length data" and "k < 5"
  shows "\<not> checksum_ok (data[i := flip_bit k (data ! i)] @ [checksum_byte data])"
  using checksum_flip_low_bit [OF assms]
  by (simp add: checksum_ok_def sint_checksum_byte)

text \<open>C5, amended, at the segment \<open>"AB"\<close> with bit 3 of its first byte flipped.\<close>

theorem checksum_detects_low_bit_flip_witness:
  "(0::nat) < length [0x41 :: byte, 0x42] \<and> (3::nat) < 5 \<and>
   \<not> checksum_ok ([0x41, 0x42][0 := flip_bit 3 ([0x41, 0x42] ! 0)] @ [checksum_byte [0x41, 0x42]])"
  using checksum_detects_low_bit_flip [of 0 "[0x41, 0x42]" 3] by simp

section \<open>The send loop\<close>

lemma segments_of_Nil [simp]: "segments_of [] = []"
  by (simp add: segments_of.simps)

lemma segments_of_nonempty:
  "bytes \<noteq> [] \<Longrightarrow> segments_of bytes = take 512 bytes # segments_of (drop 512 bytes)"
  by (subst segments_of.simps) simp

lemma concat_segments_of: "concat (segments_of bytes) = bytes"
proof (induction bytes rule: segments_of.induct)
  case (1 bytes)
  then show ?case by (cases "bytes = []") (simp_all add: segments_of_nonempty)
qed

lemma length_segments_of: "length (segments_of bytes) = (length bytes + 511) div 512"
proof (induction bytes rule: segments_of.induct)
  case (1 bytes)
  show ?case
  proof (cases "bytes = []")
    case True
    then show ?thesis by simp
  next
    case False
    then have "length (segments_of bytes) = Suc ((length bytes - 512 + 511) div 512)"
      using 1 by (simp add: segments_of_nonempty)
    also have "\<dots> = (length bytes + 511) div 512"
    proof (cases "512 \<le> length bytes")
      case True
      then have "length bytes + 511 = (length bytes - 512 + 511) + 512" by simp
      then show ?thesis by (metis div_add_self2 zero_neq_numeral Suc_eq_plus1)
    next
      case False
      from \<open>bytes \<noteq> []\<close> have "Suc 0 \<le> length bytes"
        by (cases bytes) simp_all
      with False have "(length bytes + 511) div 512 = 1"
        by (intro div_nat_eqI) simp_all
      moreover from False have "length bytes - 512 + 511 = 511" by simp
      ultimately show ?thesis by simp
    qed
    finally show ?thesis .
  qed
qed

lemma segments_of_sizes: "s \<in> set (segments_of bytes) \<Longrightarrow> 0 < length s \<and> length s \<le> 512"
proof (induction bytes rule: segments_of.induct)
  case (1 bytes)
  then show ?case by (cases "bytes = []") (auto simp: segments_of_nonempty)
qed

lemma unat_add_of_nat:
  fixes s N :: "'a::len word"
  assumes "unat s + n \<le> unat N"
  shows "unat (s + of_nat n) = unat s + n"
proof -
  have lt: "unat N < 2 ^ LENGTH('a)" by (rule unsigned_less)
  with assms have n: "n < 2 ^ LENGTH('a)" by linarith
  then have un: "unat (of_nat n :: 'a word) = n" by (simp add: unat_of_nat)
  have "unat s + unat (of_nat n :: 'a word) < 2 ^ LENGTH('a)" using assms lt un by linarith
  then have "unat (s + of_nat n) = unat s + unat (of_nat n :: 'a word)"
    by (simp add: unat_add_lem)
  with un show ?thesis by simp
qed

lemma send_loop_sends_segments:
  assumes "unat sent_size + length (unread f) = unat filesize"
    and "err_after f = None" and "fail_after sock = None" and "eof f \<longrightarrow> unread f = []"
  shows "send_loop filesize sent_size f sock
           = Some (0, sock\<lparr>written := written sock @ concat (map frame (segments_of (unread f)))\<rparr>)"
  using assms
proof (induction "length (unread f)" arbitrary: sent_size f sock rule: less_induct)
  case less
  show ?case
  proof (cases "unread f = []")
    case True
    with less.prems have "unat sent_size = unat filesize" by simp
    then have "\<not> sent_size < filesize" by (simp add: word_less_nat_alt)
    with True show ?thesis by (subst send_loop.simps) simp
  next
    case False
    let ?xs = "unread f"
    let ?d = "take 512 ?xs"
    let ?f' = "f\<lparr>unread := drop 512 ?xs, eof := (eof f \<or> length ?xs < 512)\<rparr>"
    let ?sock' = "sock\<lparr>written := written sock @ frame ?d\<rparr>"
    let ?sent' = "sent_size + of_nat (length ?d)"
    from False have "0 < length (unread f)" by simp
    with less.prems(1) have "unat sent_size < unat filesize" by linarith
    then have lt: "sent_size < filesize"
      by (simp add: word_less_nat_alt)
    have fr: "fread BLKSIZE f = (?d, ?f')"
      using less.prems(2) by (simp add: fread_def BLKSIZE_def)
    have noerr: "\<not> (length ?d < BLKSIZE \<and> \<not> eof ?f')"
      by (auto simp: BLKSIZE_def)
    have w: "sock_write (Hdr \<lparr>message_type = tag_f, message_size = of_nat (length ?d)\<rparr>) sock
          = Some (sock\<lparr>written := written sock
                @ [Hdr \<lparr>message_type = tag_f, message_size = of_nat (length ?d)\<rparr>]\<rparr>)"
      using less.prems(3) by (simp add: sock_write_def)
    have w2: "sock_write (Raw (?d @ [checksum_byte ?d]))
           (sock\<lparr>written := written sock
                @ [Hdr \<lparr>message_type = tag_f, message_size = of_nat (length ?d)\<rparr>]\<rparr>)
          = Some ?sock'"
      using less.prems(3) by (simp add: sock_write_def frame_def)
    have step: "send_loop filesize sent_size f sock = send_loop filesize ?sent' ?f' ?sock'"
      apply (subst send_loop.simps)
      apply (simp only: lt fr noerr w w2 if_True if_False prod.case option.case)
      done
    have len: "unat sent_size + length ?d \<le> unat filesize"
      using less.prems(1) by simp
    have sent': "unat ?sent' = unat sent_size + length ?d"
      using len by (rule unat_add_of_nat)
    have rest: "send_loop filesize ?sent' ?f' ?sock'
        = Some (0, ?sock'\<lparr>written := written ?sock' @ concat (map frame (segments_of (unread ?f')))\<rparr>)"
    proof (rule less.hyps)
      show "length (unread ?f') < length (unread f)" using False by simp
      show "unat ?sent' + length (unread ?f') = unat filesize"
        using sent' less.prems(1) by simp
      show "err_after ?f' = None" using less.prems(2) by simp
      show "fail_after ?sock' = None" using less.prems(3) by simp
      show "eof ?f' \<longrightarrow> unread ?f' = []" using less.prems(4) by auto
    qed
    have segs: "segments_of ?xs = ?d # segments_of (drop 512 ?xs)"
      using False by (rule segments_of_nonempty)
    have "?sock'\<lparr>written := written ?sock' @ concat (map frame (segments_of (unread ?f')))\<rparr>
        = sock\<lparr>written := written sock @ concat (map frame (segments_of ?xs))\<rparr>"
      by (simp add: segs)
    with step rest show ?thesis by (simp only:)
  qed
qed

lemma send_loop_starved_aux:
  assumes "send_loop filesize sent_size f sock = Some y"
  shows "\<not> starved filesize sent_size f sock"
proof (rule send_loop.raw_induct
    [where P = "\<lambda>filesize sent_size f sock y. \<not> starved filesize sent_size f sock", OF _ assms])
  fix loop :: "uint32_t \<Rightarrow> uint32_t \<Rightarrow> rstream \<Rightarrow> sock_out \<Rightarrow> (int \<times> sock_out) option"
  fix filesize sent_size f sock r
  assume IH: "\<And>a b c d y. loop a b c d = Some y \<Longrightarrow> \<not> starved a b c d"
  assume body: "(if sent_size < filesize
      then case fread BLKSIZE f of
           (buffer, f') \<Rightarrow>
             if length buffer < BLKSIZE \<and> \<not> eof f' then Some (- 1, sock)
             else case sock_write
                        (Hdr \<lparr>message_type = tag_f,
                                message_size = word_of_nat (length buffer)\<rparr>)
                        sock of
                  None \<Rightarrow> Some (- 1, sock)
                  | Some sock1 \<Rightarrow>
                      case sock_write
                            (Raw (buffer @ [checksum_byte buffer])) sock1 of
                      None \<Rightarrow> Some (- 1, sock1)
                      | Some sock2 \<Rightarrow>
                          loop filesize
                           (sent_size + word_of_nat (length buffer)) f'
                           sock2
      else Some (0, sock)) = Some r"
  show "\<not> starved filesize sent_size f sock"
  proof
    assume a: "starved filesize sent_size f sock"
    then have fr: "fread BLKSIZE f = ([], f)"
      by (cases f) (simp add: fread_def BLKSIZE_def starved_def)
    let ?s2 = "sock\<lparr>written := written sock @
        [Hdr \<lparr>message_type = tag_f, message_size = 0\<rparr>, Raw [checksum_byte []]]\<rparr>"
    from a fr body have "loop filesize sent_size f ?s2 = Some r"
      by (simp add: sock_write_def BLKSIZE_def starved_def)
    from IH [OF this] a show False by (simp add: starved_def)
  qed
qed

lemma send_loop_starved:
  assumes "unread file = []" and "eof file" and "err_after file = None"
    and "fail_after sock = None" and "sent_size < filesize"
  shows "send_loop filesize sent_size file sock = None"
proof (cases "send_loop filesize sent_size file sock")
  case None
  then show ?thesis .
next
  case (Some y)
  from send_loop_starved_aux [OF Some] assms show ?thesis by (simp add: starved_def)
qed

section \<open>Premature end of the file on the send path\<close>

text \<open>
  C3: if the file ends before \<open>sent_size\<close> has reached \<open>filesize\<close>, \<open>send_file\<close> should
  return \<open>-1\<close>. The source only tests \<open>read_size < BLKSIZE && !feof(file)\<close>: at the end of
  the file \<open>fread\<close> returns 0 with the end-of-file indicator set, the test is false, an
  empty segment is sent and \<open>sent_size\<close> does not advance. For the one-byte file \<open>"A"\<close>
  sent with \<open>filesize = 2\<close> over a socket that takes every write, \<open>send_file\<close> never
  returns.
\<close>

theorem send_file_truncated_never_returns:
  "send_file
     \<lparr>req_hdr = None, name_alloc_ok = True, req_payload = None, stat_fails = False,
      fopen_r_ok = True, calloc_ok = True, disk_err_after = None, peer_gone_after = None\<rparr>
     [[0x61] \<mapsto> [0x41]] \<lparr>written = [], fail_after = None\<rparr> [0x61] 2 = None"
proof -
  let ?f1 = "\<lparr>unread = [], eof = True, err_after = None\<rparr>"
  let ?s1 = "\<lparr>written = [Hdr \<lparr>message_type = tag_f, message_size = 1\<rparr>, Raw [0x41, checksum_byte [0x41]]],
              fail_after = None\<rparr>"
  have "send_loop 2 1 ?f1 ?s1 = None"
    by (rule send_loop_starved) simp_all
  then have "send_loop 2 0 \<lparr>unread = [0x41], eof = False, err_after = None\<rparr>
               \<lparr>written = [], fail_after = None\<rparr> = None"
    by (subst send_loop.simps) (simp add: fread_def BLKSIZE_def sock_write_def)
  then show ?thesis by (simp add: send_file_def)
qed

section \<open>Oversized requests\<close>

text \<open>
  C7: a request whose header was read and declares a name length above 1024 makes
  \<open>accept_file_request\<close> return \<open>NULL\<close> without any call of \<open>malloc\<close>, and the server
  ends the round without writing anything to the client; a file-transfer header declaring
  at most 1024 passes the check: \<open>malloc\<close> is called with the declared length, and when
  it and the \<open>read\<close> succeed the name is returned.
\<close>

theorem oversized_request_rejected:
  assumes "req_hdr env = Some header"
  shows "(1024 < unat (message_size header) \<longrightarrow>
            accept_file_request env = (None, []) \<and>
            serve_connection env fs =
              Some (Exit_failure, \<lparr>written = [], fail_after = peer_gone_after env\<rparr>))
       \<and> (unat (message_size header) \<le> 1024 \<and> message_type header = tag_f \<longrightarrow>
            snd (accept_file_request env) = [unat (message_size header)])
       \<and> (unat (message_size header) \<le> 1024 \<and> message_type header = tag_f
            \<and> name_alloc_ok env \<and> req_payload env = Some bytes \<longrightarrow>
            fst (accept_file_request env) = Some (take (unat (message_size header)) bytes))"
  using assms
  by (simp add: accept_file_request_def serve_connection_def MAX_ALLOCATION_SIZE_def
      split: option.splits)

text \<open>C7 at a header that declares 1025 bytes.\<close>

theorem oversized_request_rejected_witness:
  "req_hdr \<lparr>req_hdr = Some \<lparr>message_type = tag_f, message_size = 1025\<rparr>,
      name_alloc_ok = True, req_payload = Some [0x61, 0], stat_fails = False, fopen_r_ok = True,
      calloc_ok = True, disk_err_after = None, peer_gone_after = None\<rparr>
     = Some \<lparr>message_type = tag_f, message_size = 1025\<rparr>
   \<and> (1024::nat) < unat (message_size \<lparr>message_type = tag_f, message_size = 1025\<rparr>)
   \<and> accept_file_request \<lparr>req_hdr = Some \<lparr>message_type = tag_f, message_size = 1025\<rparr>,
      name_alloc_ok = True, req_payload = Some [0x61, 0], stat_fails = False, fopen_r_ok = True,
      calloc_ok = True, disk_err_after = None, peer_gone_after = None\<rparr> = (None, [])
   \<and> serve_connection \<lparr>req_hdr = Some \<lparr>message_type = tag_f, message_size = 1025\<rparr>,
      name_alloc_ok = True, req_payload = Some [0x61, 0], stat_fails = False, fopen_r_ok = True,
      calloc_ok = True, disk_err_after = None, peer_gone_after = None\<rparr> Map.empty
       = Some (Exit_failure, \<lparr>written = [], fail_after = None\<rparr>)"
  using oversized_request_rejected [of "\<lparr>req_hdr = Some \<lparr>message_type = tag_f, message_size = 1025\<rparr>,
      name_alloc_ok = True, req_payload = Some [0x61, 0], stat_fails = False, fopen_r_ok = True,
      calloc_ok = True, disk_err_after = None, peer_gone_after = None\<rparr>" "\<lparr>message_type = tag_f, message_size = 1025\<rparr>" Map.empty]
  by simp

section \<open>The confirmation prompt\<close>

text \<open>
  C10, as stated: whenever the reply length is positive the client reads one character
  from standard input. It does not for the length \<open>0xFFFFFFFF\<close>: returned as an \<open>int\<close>
  it is \<open>-1\<close>, the error value of \<open>await_initial_server_reply\<close>, and the client exits
  with \<open>EXIT_FAILURE\<close>, leaving the \<open>'y'\<close> on standard input.
\<close>

theorem reply_size_all_ones_no_prompt:
  "client_main
     \<lparr>connect_ok = True, server_gone_after = None,
      reply_read = Some \<lparr>message_type = tag_f, message_size = 0xFFFFFFFF\<rparr>,
      stdin = [0x79],
      recv = \<lparr>name_malloc_ok = True, fopen_w_ok = True, segments_in = []\<rparr>\<rparr>
     [[0x61]] Map.empty
   = Returns \<lparr>exit_code = EXIT_FAILURE,
              requests = [Hdr \<lparr>message_type = tag_f, message_size = 2\<rparr>, Raw [0x61, 0]],
              client_files = Map.empty, stdin_left = [0x79]\<rparr>"
  by (simp add: client_main_def request_file_def sock_write_def await_initial_server_reply_def)

text \<open>
  C10, amended: when the reply carries the tag \<open>'f'\<close> and a length other than 0 and
  \<open>0xFFFFFFFF\<close> (the \<open>int\<close> \<open>-1\<close>), the client takes one character from standard input and
  calls \<open>receive_file\<close> only if it is \<open>'y'\<close> or \<open>'Y'\<close>; for any other character it ends
  without reading a segment and with its files unchanged.
\<close>

theorem client_asks_before_receiving:
  assumes "connect_ok env"
    and "request_file filename \<lparr>written = [], fail_after = server_gone_after env\<rparr> = (0, sock)"
    and "reply_read env = Some reply" and "message_type reply = tag_f"
    and "message_size reply \<noteq> 0" and "message_size reply \<noteq> - 1"
    and "stdin env = response # rest"
  shows "(response = 0x59 \<or> response = 0x79 \<longrightarrow>
            client_main env (filename # args) fs =
              (case receive_file (recv env) fs filename (scast (message_size reply)) of
                 Undefined \<Rightarrow> Undefined
               | Returns (ret, fs') \<Rightarrow>
                   Returns \<lparr>exit_code = EXIT_SUCCESS, requests = written sock,
                            client_files = fs', stdin_left = rest\<rparr>))
       \<and> (response \<noteq> 0x59 \<and> response \<noteq> 0x79 \<longrightarrow>
            client_main env (filename # args) fs =
              Returns \<lparr>exit_code = EXIT_SUCCESS, requests = written sock,
                       client_files = fs, stdin_left = rest\<rparr>)"
  using assms
  by (simp add: client_main_def await_initial_server_reply_def Let_def)

text \<open>
  C10, amended, at a reply of length 1 answered with \<open>'n'\<close>: the character is taken, no
  file is created, and the outcome does not depend on any segment.
\<close>

theorem client_asks_before_receiving_witness:
  "client_main
     \<lparr>connect_ok = True, server_gone_after = None,
      reply_read = Some \<lparr>message_type = tag_f, message_size = 1\<rparr>,
      stdin = [0x6E],
      recv = \<lparr>name_malloc_ok = True, fopen_w_ok = True, segments_in = []\<rparr>\<rparr>
     [[0x61]] Map.empty
   = Returns \<lparr>exit_code = EXIT_SUCCESS,
              requests = [Hdr \<lparr>message_type = tag_f, message_size = 2\<rparr>, Raw [0x61, 0]],
              client_files = Map.empty, stdin_left = []\<rparr>"
proof -
  let ?env = "\<lparr>connect_ok = True, server_gone_after = None,
      reply_read = Some \<lparr>message_type = tag_f, message_size = 1\<rparr>,
      stdin = [0x6E :: byte],
      recv = \<lparr>name_malloc_ok = True, fopen_w_ok = True, segments_in = []\<rparr>\<rparr>"
  let ?sock = "\<lparr>written = [Hdr \<lparr>message_type = tag_f, message_size = 2\<rparr>, Raw [0x61, 0]],
               fail_after = None\<rparr>"
  have rq: "request_file [0x61] \<lparr>written = [], fail_after = server_gone_after ?env\<rparr> = (0, ?sock)"
    by (simp add: request_file_def sock_write_def)
  from client_asks_before_receiving
    [of ?env "[0x61]" ?sock "\<lparr>message_type = tag_f, message_size = 1\<rparr>" "0x6E" "[]" "[]" Map.empty, OF _ rq]
  show ?thesis by simp
qed

section \<open>Segmentation on the send path\<close>

lemma send_file_sends_segments:
  assumes "fs filename = Some content" and "length content = unat filesize"
    and "fopen_r_ok env" and "calloc_ok env" and "disk_err_after env = None"
    and "fail_after sock = None"
  shows "send_file env fs sock filename filesize
           = Some (0, sock\<lparr>written := written sock @ concat (map frame (segments_of content))\<rparr>)"
proof -
  let ?f = "\<lparr>unread = content, eof = False, err_after = disk_err_after env\<rparr>"
  have "send_loop filesize 0 ?f sock
      = Some (0, sock\<lparr>written := written sock @ concat (map frame (segments_of (unread ?f)))\<rparr>)"
    by (rule send_loop_sends_segments) (simp_all add: assms)
  then show ?thesis using assms by (simp add: send_file_def)
qed

lemma segments_of_512: "length bytes = 512 \<Longrightarrow> segments_of bytes = [bytes]"
  by (subst segments_of.simps) auto

lemma segments_of_513:
  "length bytes = 513 \<Longrightarrow> segments_of bytes = [take 512 bytes, drop 512 bytes]"
proof -
  assume l: "length bytes = 513"
  then have ne: "bytes \<noteq> []" by auto
  from l have ne': "drop 512 bytes \<noteq> []" by simp
  from l have d: "drop 512 (drop 512 bytes) = []" by simp
  have "segments_of (drop 512 bytes) = [drop 512 bytes]"
    using l by (simp add: segments_of_nonempty [OF ne'])
  then show ?thesis
    by (simp add: segments_of_nonempty [OF ne])
qed

text \<open>
  C8: when the file has exactly the \<open>filesize\<close> bytes that were declared and nothing
  fails, \<open>send_file\<close> returns 0 after writing the file's consecutive 512-byte pieces, each
  as a header with the piece's length followed by the piece and its checksum byte; there
  are \<open>ceiling(filesize / 512)\<close> of them, each with 1 to 512 data bytes. A file of 512 bytes goes out as one segment of
  512 data bytes, a file of 513 bytes as two segments of 512 and 1 data bytes in that
  order, a file of 0 bytes as no segment; with \<open>filesize = 0\<close> the loop body is never run.
\<close>

theorem send_file_segments:
  assumes "fs filename = Some content" and "length content = unat filesize"
    and "fopen_r_ok env" and "calloc_ok env" and "disk_err_after env = None"
    and "fail_after sock = None"
  shows "send_file env fs sock filename filesize
           = Some (0, sock\<lparr>written := written sock @ concat (map frame (segments_of content))\<rparr>)
       \<and> length (segments_of content) = (unat filesize + 511) div 512
       \<and> concat (segments_of content) = content
       \<and> (\<forall>s \<in> set (segments_of content). 0 < length s \<and> length s \<le> 512)
       \<and> (unat filesize = 512 \<longrightarrow>
            send_file env fs sock filename filesize
              = Some (0, sock\<lparr>written := written sock @
                  [Hdr \<lparr>message_type = tag_f, message_size = 512\<rparr>,
                   Raw (content @ [checksum_byte content])]\<rparr>))
       \<and> (unat filesize = 513 \<longrightarrow>
            length (take 512 content) = 512 \<and> length (drop 512 content) = 1 \<and>
            send_file env fs sock filename filesize
              = Some (0, sock\<lparr>written := written sock @
                  [Hdr \<lparr>message_type = tag_f, message_size = 512\<rparr>,
                   Raw (take 512 content @ [checksum_byte (take 512 content)]),
                   Hdr \<lparr>message_type = tag_f, message_size = 1\<rparr>,
                   Raw (drop 512 content @ [checksum_byte (drop 512 content)])]\<rparr>))
       \<and> (filesize = 0 \<longrightarrow> send_file env fs sock filename filesize = Some (0, sock))
       \<and> send_loop 0 sent_size f sock = Some (0, sock)"
proof -
  have main: "send_file env fs sock filename filesize
           = Some (0, sock\<lparr>written := written sock @ concat (map frame (segments_of content))\<rparr>)"
    using assms by (rule send_file_sends_segments)
  have a: "length (segments_of content) = (unat filesize + 511) div 512"
    using assms(2) by (simp add: length_segments_of)
  have b: "concat (segments_of content) = content" by (rule concat_segments_of)
  have b': "\<forall>s \<in> set (segments_of content). 0 < length s \<and> length s \<le> 512"
    using segments_of_sizes by blast
  have c: "send_file env fs sock filename filesize
              = Some (0, sock\<lparr>written := written sock @
                  [Hdr \<lparr>message_type = tag_f, message_size = 512\<rparr>,
                   Raw (content @ [checksum_byte content])]\<rparr>)" if "unat filesize = 512"
  proof -
    from that assms(2) have l: "length content = 512" by simp
    show ?thesis by (simp add: main segments_of_512 [OF l] frame_def l)
  qed
  have d: "length (take 512 content) = 512 \<and> length (drop 512 content) = 1 \<and>
            send_file env fs sock filename filesize
              = Some (0, sock\<lparr>written := written sock @
                  [Hdr \<lparr>message_type = tag_f, message_size = 512\<rparr>,
                   Raw (take 512 content @ [checksum_byte (take 512 content)]),
                   Hdr \<lparr>message_type = tag_f, message_size = 1\<rparr>,
                   Raw (drop 512 content @ [checksum_byte (drop 512 content)])]\<rparr>)"
    if "unat filesize = 513"
  proof -
    from that assms(2) have l: "length content = 513" by simp
    show ?thesis by (simp add: main segments_of_513 [OF l] frame_def l)
  qed
  have e: "send_file env fs sock filename filesize = Some (0, sock)" if "filesize = 0"
  proof -
    from that assms(2) have "content = []" by simp
    then show ?thesis by (simp add: main)
  qed
  have g: "send_loop 0 sent_size f sock = Some (0, sock)"
    by (subst send_loop.simps) simp
  from main a b b' c d e g show ?thesis by blast
qed

text \<open>C8 at the two-byte file \<open>"AB"\<close>: one segment, with checksum byte 3.\<close>

lemma chk_AB: "checksum_byte [0x41, 0x42] = 3"
  by (simp add: checksum_byte_def checksum_def block_sum_def DIVISOR_def smod_int_alt_def)

theorem send_file_segments_witness:
  "[[0x61] \<mapsto> [0x41, 0x42 :: byte]] [0x61] = Some [0x41, 0x42]
   \<and> length [0x41, 0x42 :: byte] = unat (2 :: uint32_t)
   \<and> send_file
        \<lparr>req_hdr = None, name_alloc_ok = True, req_payload = None, stat_fails = False,
         fopen_r_ok = True, calloc_ok = True, disk_err_after = None, peer_gone_after = None\<rparr>
        [[0x61] \<mapsto> [0x41, 0x42]] \<lparr>written = [], fail_after = None\<rparr> [0x61] 2
      = Some (0, \<lparr>written = [Hdr \<lparr>message_type = tag_f, message_size = 2\<rparr>,
                               Raw [0x41, 0x42, 0x03]],
                  fail_after = None\<rparr>)
   \<and> length (segments_of [0x41, 0x42 :: byte]) = 1"
proof -
  let ?env = "\<lparr>req_hdr = None, name_alloc_ok = True, req_payload = None, stat_fails = False,
         fopen_r_ok = True, calloc_ok = True, disk_err_after = None, peer_gone_after = None\<rparr>"
  have segs: "segments_of [0x41, 0x42 :: byte] = [[0x41, 0x42]]"
    by (simp add: segments_of.simps)
  from send_file_segments
    [of "[[0x61] \<mapsto> [0x41, 0x42]]" "[0x61]" "[0x41, 0x42]" 2 ?env
        "\<lparr>written = [], fail_after = None\<rparr>"]
  show ?thesis by (simp add: segs frame_def chk_AB)
qed

section \<open>The header on the wire\<close>

lemma sizeof_message_header_8: "sizeof_message_header = 8"
  by (simp add: sizeof_message_header_def sizeof_struct_def message_header_members_def
      align_up_def)

lemma member_offsets_message_header: "member_offsets 0 message_header_members = [0, 4]"
  by (simp add: message_header_members_def align_up_def)

lemma headed_append: "headed ps \<Longrightarrow> headed qs \<Longrightarrow> headed (ps @ qs)"
proof (induction ps rule: headed.induct)
  case 1
  then show ?case by simp
next
  case (2 bytes ps)
  then show ?case by simp
next
  case (3 header)
  then show ?case by (cases qs rule: headed.cases) simp_all
next
  case (4 header bytes ps)
  then show ?case by simp
next
  case (5 header next_header ps)
  then show ?case by simp
qed

lemma headed_header: "headed [Hdr \<lparr>message_type = tag_f, message_size = n\<rparr>]"
  by simp

lemma headed_message:
  "headed [Hdr \<lparr>message_type = tag_f, message_size = n\<rparr>, Raw bytes]"
  by simp

lemma sock_write_written: "sock_write p s = Some s' \<Longrightarrow> written s' = written s @ [p]"
  by (auto simp: sock_write_def split: option.splits nat.splits)

lemma send_loop_headed:
  assumes "send_loop filesize sent_size f sock = Some y"
  shows "headed (written sock) \<longrightarrow> headed (written (snd y))"
proof (rule send_loop.raw_induct
    [where P = "\<lambda>filesize sent_size f sock y. headed (written sock) \<longrightarrow> headed (written (snd y))",
     OF _ assms])
  fix loop :: "uint32_t \<Rightarrow> uint32_t \<Rightarrow> rstream \<Rightarrow> sock_out \<Rightarrow> (int \<times> sock_out) option"
  fix filesize sent_size f sock r
  assume IH: "\<And>a b c d y. loop a b c d = Some y \<Longrightarrow>
      headed (written d) \<longrightarrow> headed (written (snd y))"
  assume body: "(if sent_size < filesize
      then case fread BLKSIZE f of
           (buffer, f') \<Rightarrow>
             if length buffer < BLKSIZE \<and> \<not> eof f' then Some (- 1, sock)
             else case sock_write
                        (Hdr \<lparr>message_type = tag_f,
                                message_size = word_of_nat (length buffer)\<rparr>)
                        sock of
                  None \<Rightarrow> Some (- 1, sock)
                  | Some sock1 \<Rightarrow>
                      case sock_write
                            (Raw (buffer @ [checksum_byte buffer])) sock1 of
                      None \<Rightarrow> Some (- 1, sock1)
                      | Some sock2 \<Rightarrow>
                          loop filesize
                           (sent_size + word_of_nat (length buffer)) f'
                           sock2
      else Some (0, sock)) = Some r"
  show "headed (written sock) \<longrightarrow> headed (written (snd r))"
  proof
    assume h: "headed (written sock)"
    show "headed (written (snd r))"
    proof (cases "sent_size < filesize")
      case False
      with body h show ?thesis by auto
    next
      case True
      obtain buffer f' where fr: "fread BLKSIZE f = (buffer, f')"
        by (cases "fread BLKSIZE f")
      let ?hdr = "Hdr \<lparr>message_type = tag_f, message_size = word_of_nat (length buffer)\<rparr>"
      show ?thesis
      proof (cases "length buffer < BLKSIZE \<and> \<not> eof f'")
        case True
        with body \<open>sent_size < filesize\<close> fr h show ?thesis by auto
      next
        case noerr: False
        show ?thesis
        proof (cases "sock_write ?hdr sock")
          case None
          with body \<open>sent_size < filesize\<close> fr noerr h show ?thesis by auto
        next
          case (Some sock1)
          from sock_write_written [OF Some] h have h1: "headed (written sock1)"
            by (simp add: headed_append)
          show ?thesis
          proof (cases "sock_write (Raw (buffer @ [checksum_byte buffer])) sock1")
            case None
            with body \<open>sent_size < filesize\<close> fr noerr Some h1 show ?thesis by auto
          next
            case (Some sock2)
            from sock_write_written [OF Some] sock_write_written [OF \<open>sock_write ?hdr sock = Some sock1\<close>]
            have "written sock2 = written sock @ [?hdr, Raw (buffer @ [checksum_byte buffer])]"
              by simp
            with h have h2: "headed (written sock2)"
              by (simp add: headed_append)
            from body \<open>sent_size < filesize\<close> fr noerr
              \<open>sock_write ?hdr sock = Some sock1\<close> Some
            have "loop filesize (sent_size + word_of_nat (length buffer)) f' sock2 = Some r"
              by simp
            from IH [OF this] h2 show ?thesis by simp
          qed
        qed
      qed
    qed
  qed
qed

lemma send_file_headed:
  assumes "send_file env fs sock filename filesize = Some (rc, sock')"
    and "headed (written sock)"
  shows "headed (written sock')"
proof (cases "if fopen_r_ok env then fs filename else None")
  case None
  with assms show ?thesis by (simp add: send_file_def)
next
  case (Some content)
  show ?thesis
  proof (cases "calloc_ok env")
    case False
    with Some assms show ?thesis by (simp add: send_file_def)
  next
    case True
    with Some assms(1) have "send_loop filesize 0
        \<lparr>unread = content, eof = False, err_after = disk_err_after env\<rparr> sock = Some (rc, sock')"
      by (simp add: send_file_def)
    from send_loop_headed [OF this] assms(2) show ?thesis by simp
  qed
qed

lemma check_if_file_exist_headed:
  assumes "headed (written sock)"
  shows "headed (written (snd (check_if_file_exist env fs sock filename)))"
proof -
  have "headed (written s')"
    if "sock_write (Hdr \<lparr>message_type = tag_f, message_size = n\<rparr>) sock = Some s'" for n s'
    using sock_write_written [OF that] assms by (simp add: headed_append)
  then show ?thesis
    using assms
    by (auto simp: check_if_file_exist_def split: option.splits stat_result.splits)
qed

lemma serve_connection_headed:
  assumes "serve_connection env fs = Some (e, sock)"
  shows "headed (written sock)"
proof -
  let ?sock0 = "\<lparr>written = [], fail_after = peer_gone_after env\<rparr>"
  have h0: "headed (written ?sock0)" by simp
  show ?thesis
  proof (cases "fst (accept_file_request env)")
    case None
    with assms show ?thesis by (auto simp: serve_connection_def)
  next
    case (Some buf)
    show ?thesis
    proof (cases "c_string buf")
      case None
      with Some assms show ?thesis by (auto simp: serve_connection_def)
    next
      case name: (Some requested_filename)
      obtain ret_val sock1
        where chk: "check_if_file_exist env fs ?sock0 requested_filename = (ret_val, sock1)"
        by (cases "check_if_file_exist env fs ?sock0 requested_filename")
      from check_if_file_exist_headed [OF h0, of env fs requested_filename] chk
      have h1: "headed (written sock1)" by simp
      show ?thesis
      proof (cases "ret_val = - 1 \<or> ret_val = 0")
        case True
        with Some name chk assms h1 show ?thesis
          by (auto simp: serve_connection_def split: if_splits)
      next
        case False
        with Some name chk assms obtain ret
          where "send_file env fs sock1 requested_filename ret_val = Some (ret, sock)"
          by (auto simp: serve_connection_def split: option.splits)
        from send_file_headed [OF this h1] show ?thesis .
      qed
    qed
  qed
qed

lemma request_file_headed:
  "headed (written (snd (request_file filename \<lparr>written = [], fail_after = k\<rparr>)))"
  by (auto simp: request_file_def sock_write_def split: option.splits nat.splits)

lemma client_main_headed:
  assumes "client_main env args fs = Returns e"
  shows "headed (requests e)"
proof (cases args)
  case Nil
  with assms show ?thesis by (auto simp: client_main_def)
next
  case (Cons requested_filename rest)
  note rq = request_file_headed [of requested_filename "server_gone_after env"]
  obtain rc sock where r: "request_file requested_filename
      \<lparr>written = [], fail_after = server_gone_after env\<rparr> = (rc, sock)"
    by (cases "request_file requested_filename \<lparr>written = [], fail_after = server_gone_after env\<rparr>")
  with rq have "headed (written sock)" by simp
  with assms Cons r show ?thesis
    by (auto simp: client_main_def Let_def split: if_splits list.splits outcome.splits)
qed

lemma header_read_count:
  assumes "hdr_read io' sizeof_message_header = hdr_read io sizeof_message_header"
    and "realloc io' = realloc io" and "seg_read io' = seg_read io"
    and "fwrite_limit io' = fwrite_limit io"
  shows "receive_loop_from live filesize received_size out (io' # ios)
       = receive_loop_from live filesize received_size out (io # ios)"
  unfolding receive_loop_from.simps assms by (rule refl)

lemma send_one_byte_file:
  "send_file
     \<lparr>req_hdr = None, name_alloc_ok = True, req_payload = None, stat_fails = False,
      fopen_r_ok = True, calloc_ok = True, disk_err_after = None, peer_gone_after = None\<rparr>
     [[0x61] \<mapsto> [0x41]] \<lparr>written = [], fail_after = None\<rparr> [0x61] 1
   = Some (0, \<lparr>written = [Hdr \<lparr>message_type = tag_f, message_size = 1\<rparr>, Raw [0x41, 0x01]],
               fail_after = None\<rparr>)"
proof -
  have segs: "segments_of [0x41 :: byte] = [[0x41]]"
    by (simp add: segments_of.simps)
  have chk: "checksum_byte [0x41] = 1"
    by (simp add: checksum_byte_def checksum_def block_sum_def DIVISOR_def smod_int_alt_def)
  from send_file_sends_segments
    [where fs = "[[0x61] \<mapsto> [0x41]]" and filename = "[0x61]" and content = "[0x41]"
       and filesize = 1 and sock = "\<lparr>written = [], fail_after = None\<rparr>"
       and env = "\<lparr>req_hdr = None, name_alloc_ok = True, req_payload = None,
         stat_fails = False, fopen_r_ok = True, calloc_ok = True, disk_err_after = None,
         peer_gone_after = None\<rparr>"]
  show ?thesis by (simp add: segs frame_def chk)
qed

text \<open>
  C4, as stated: every message is prefixed by a header of 5 bytes without padding, the tag
  byte followed by the 4 bytes of the length, and 5 header bytes are written and read per
  frame. They are not: the header of the segment that \<open>send_file\<close> writes for the
  one-byte file \<open>"A"\<close> goes out with a byte count of \<open>sizeof(message_header)\<close>, which is
  8, and the length lies at offset 4 of the struct, not at offset 1.
\<close>

theorem header_write_is_eight_bytes:
  "send_file
     \<lparr>req_hdr = None, name_alloc_ok = True, req_payload = None, stat_fails = False,
      fopen_r_ok = True, calloc_ok = True, disk_err_after = None, peer_gone_after = None\<rparr>
     [[0x61] \<mapsto> [0x41]] \<lparr>written = [], fail_after = None\<rparr> [0x61] 1
   = Some (0, \<lparr>written = [Hdr \<lparr>message_type = tag_f, message_size = 1\<rparr>, Raw [0x41, 0x01]],
               fail_after = None\<rparr>)
   \<and> map write_count [Hdr \<lparr>message_type = tag_f, message_size = 1\<rparr>, Raw [0x41, 0x01]] = [8, 2]
   \<and> sizeof_message_header \<noteq> 5
   \<and> member_offsets 0 message_header_members = [0, 4]"
  by (simp add: send_one_byte_file write_count_def sizeof_message_header_8
      member_offsets_message_header)

text \<open>
  C4, amended: every message the programs write is prefixed by a header that is written
  as the whole struct \<open>message_header\<close>: 8 bytes, of which the tag byte (\<open>'f'\<close> = 0x66) is
  at offset 0, the 4 bytes of the unsigned length are at offset 4, and the 3 bytes in
  between are padding. Whatever the server writes in a round and whatever the client
  writes is headed: every raw buffer comes right after a header, and every header
  carries the tag \<open>'f'\<close>. The number of header bytes written per frame is exactly 8, and 8
  is the byte count the receive loop asks its header read for.
\<close>

theorem header_is_whole_struct:
  "sizeof_message_header = 8
   \<and> member_offsets 0 message_header_members = [0, 4]
   \<and> sum_list (map fst message_header_members) = 5
   \<and> tag_f = 0x66
   \<and> write_count (Hdr header) = 8
   \<and> (serve_connection env fs = Some (e, sock) \<longrightarrow> headed (written sock))
   \<and> (headed (written sock0) \<and> send_file env fs sock0 filename filesize = Some (rc, sock')
        \<longrightarrow> headed (written sock'))
   \<and> (client_main cenv args cfs = Returns ce \<longrightarrow> headed (requests ce))
   \<and> (hdr_read io' 8 = hdr_read io 8 \<and> realloc io' = realloc io
        \<and> seg_read io' = seg_read io \<and> fwrite_limit io' = fwrite_limit io \<longrightarrow>
        receive_loop_from live filesize' received_size out (io' # ios)
          = receive_loop_from live filesize' received_size out (io # ios))"
proof (intro conjI impI)
  show "sizeof_message_header = 8" by (rule sizeof_message_header_8)
  show "member_offsets 0 message_header_members = [0, 4]"
    by (rule member_offsets_message_header)
  show "sum_list (map fst message_header_members) = 5"
    by (simp add: message_header_members_def)
  show "tag_f = 0x66" by (simp add: tag_f_def)
  show "write_count (Hdr header) = 8"
    by (simp add: write_count_def sizeof_message_header_8)
  show "headed (written sock)" if "serve_connection env fs = Some (e, sock)"
    using that by (rule serve_connection_headed)
  show "headed (written sock')"
    if "headed (written sock0) \<and> send_file env fs sock0 filename filesize = Some (rc, sock')"
    using that send_file_headed by blast
  show "headed (requests ce)" if "client_main cenv args cfs = Returns ce"
    using that by (rule client_main_headed)
  show "receive_loop_from live filesize' received_size out (io' # ios)
          = receive_loop_from live filesize' received_size out (io # ios)"
    if "hdr_read io' 8 = hdr_read io 8 \<and> realloc io' = realloc io
        \<and> seg_read io' = seg_read io \<and> fwrite_limit io' = fwrite_limit io"
    using that by (intro header_read_count) (simp_all add: sizeof_message_header_8)
qed

text \<open>C4, amended, at the segment written for the one-byte file \<open>"A"\<close>.\<close>

theorem header_is_whole_struct_witness:
  "headed (written \<lparr>written = [], fail_after = None\<rparr>)
   \<and> send_file
        \<lparr>req_hdr = None, name_alloc_ok = True, req_payload = None, stat_fails = False,
         fopen_r_ok = True, calloc_ok = True, disk_err_after = None, peer_gone_after = None\<rparr>
        [[0x61] \<mapsto> [0x41]] \<lparr>written = [], fail_after = None\<rparr> [0x61] 1
      = Some (0, \<lparr>written = [Hdr \<lparr>message_type = tag_f, message_size = 1\<rparr>, Raw [0x41, 0x01]],
                  fail_after = None\<rparr>)
   \<and> headed [Hdr \<lparr>message_type = tag_f, message_size = 1\<rparr>, Raw [0x41, 0x01]]
   \<and> write_count (Hdr \<lparr>message_type = tag_f, message_size = 1\<rparr>) = 8"
  using header_is_whole_struct
    [where header = "\<lparr>message_type = tag_f, message_size = 1\<rparr>"
       and sock0 = "\<lparr>written = [], fail_after = None\<rparr>"
       and env = "\<lparr>req_hdr = None, name_alloc_ok = True, req_payload = None,
         stat_fails = False, fopen_r_ok = True, calloc_ok = True, disk_err_after = None,
         peer_gone_after = None\<rparr>"
       and fs = "[[0x61] \<mapsto> [0x41]]" and filename = "[0x61]" and filesize = 1 and rc = 0
       and sock' = "\<lparr>written = [Hdr \<lparr>message_type = tag_f, message_size = 1\<rparr>,
         Raw [0x41, 0x01]], fail_after = None\<rparr>"]
    send_one_byte_file
  by simp

section \<open>The receive loop on the sender's segments\<close>


lemma data_size_as_word:
  assumes "length d \<le> 512"
  shows "unat (of_nat (length d) :: uint32_t) = length d"
    and "unat (of_nat (length d) + 1 :: uint32_t) = length d + 1"
    and "((of_nat (length d) :: uint32_t) = 0) = (d = [])"
proof -
  show u: "unat (of_nat (length d) :: uint32_t) = length d"
    using assms by (simp add: unat_of_nat)
  then show "unat (of_nat (length d) + 1 :: uint32_t) = length d + 1"
    using assms by (simp add: unat_word_ariths)
  show "((of_nat (length d) :: uint32_t) = 0) = (d = [])"
  proof
    assume "(of_nat (length d) :: uint32_t) = 0"
    then have "unat (of_nat (length d) :: uint32_t) = 0" by simp
    with u show "d = []" by simp
  next
    assume "d = []"
    then show "(of_nat (length d) :: uint32_t) = 0" by simp
  qed
qed

lemma receive_loop_step:
  assumes "received_size < filesize" and "0 < length d" and "length d \<le> 512"
    and "0 < slack"
  shows "receive_loop_from live filesize received_size out (sent_segment slack d # ios)
         = receive_loop_from True filesize (received_size + of_nat (length d)) (out @ d) ios"
proof -
  note w = data_size_as_word [OF assms(3)]
  from assms(2) have ne: "d \<noteq> []" by simp
  show ?thesis
    using assms(1,4) ne
    by (simp add: sent_segment_def delivered_def w checksum_ok_sent fwrite_def)
qed

lemma receive_loop_step_strict:
  assumes "received_size < filesize" and "0 < length d" and "length d \<le> 512"
  shows "receive_loop_from live filesize received_size out (sent_segment 0 d # ios)
         = Out_of_bounds"
proof -
  note w = data_size_as_word [OF assms(3)]
  from assms(2) have ne: "d \<noteq> []" by simp
  show ?thesis
    using assms(1) ne
    by (simp add: sent_segment_def delivered_def w)
qed

lemma receive_loop_segments:
  assumes "\<forall>d \<in> set ds. 0 < length d \<and> length d \<le> 512" and "0 < slack"
    and "unat received_size + length (concat ds) \<le> unat filesize"
  shows "receive_loop_from live filesize received_size out (map (sent_segment slack) ds @ rest)
         = receive_loop_from (live \<or> ds \<noteq> []) filesize
             (received_size + of_nat (length (concat ds))) (out @ concat ds) rest"
  using assms
proof (induction ds arbitrary: live received_size out)
  case Nil
  then show ?case by simp
next
  case (Cons d ds)
  from Cons.prems(1) have d: "0 < length d" "length d \<le> 512" by simp_all
  have "length (concat (d # ds)) = length d + length (concat ds)" by simp
  with Cons.prems(3) d(1) have "unat received_size < unat filesize" by linarith
  then have lt: "received_size < filesize" by (simp add: word_less_nat_alt)
  have step: "receive_loop_from live filesize received_size out
                (sent_segment slack d # (map (sent_segment slack) ds @ rest))
      = receive_loop_from True filesize (received_size + of_nat (length d)) (out @ d)
          (map (sent_segment slack) ds @ rest)"
    using lt d Cons.prems(2) by (rule receive_loop_step)
  have "unat received_size + length d \<le> unat filesize"
    using Cons.prems(3) by simp
  then have u: "unat (received_size + of_nat (length d)) = unat received_size + length d"
    by (rule unat_add_of_nat)
  have "receive_loop_from True filesize (received_size + of_nat (length d)) (out @ d)
          (map (sent_segment slack) ds @ rest)
      = receive_loop_from (True \<or> ds \<noteq> []) filesize
          (received_size + of_nat (length d) + of_nat (length (concat ds)))
          ((out @ d) @ concat ds) rest"
  proof (rule Cons.IH)
    show "\<forall>d \<in> set ds. 0 < length d \<and> length d \<le> 512" using Cons.prems(1) by simp
    show "0 < slack" by (rule Cons.prems(2))
    show "unat (received_size + of_nat (length d)) + length (concat ds) \<le> unat filesize"
      using u Cons.prems(3) by simp
  qed
  with step show ?case by (simp add: add.assoc)
qed

lemma frames_in_frames:
  "frames_in slack (concat (map frame ds)) = map (sent_segment slack) ds"
  by (induction ds) (simp_all add: frame_def sent_segment_def)

lemma receive_loop_after_segments:
  assumes "0 < slack" and "\<forall>d \<in> set ds. 0 < length d \<and> length d \<le> 512"
    and "length (concat ds) \<le> unat filesize"
  shows "receive_loop filesize 0 [] (map (sent_segment slack) ds @ rest)
       = receive_loop_from (ds \<noteq> []) filesize (of_nat (length (concat ds))) (concat ds) rest"
    and "unat (of_nat (length (concat ds)) :: size_t) = length (concat ds)"
proof -
  have le: "unat (0 :: size_t) + length (concat ds) \<le> unat filesize"
    using assms(3) by simp
  from receive_loop_segments [OF assms(2,1) le, of False "[]" rest]
  show "receive_loop filesize 0 [] (map (sent_segment slack) ds @ rest)
       = receive_loop_from (ds \<noteq> []) filesize (of_nat (length (concat ds))) (concat ds) rest"
    by (simp add: receive_loop_def)
  from unat_add_of_nat [OF le]
  show "unat (of_nat (length (concat ds)) :: size_t) = length (concat ds)"
    by simp
qed

section \<open>Cleanup on the receive path\<close>

text \<open>
  C2, as stated: every failure exit of the receive path leaves no destination file. It
  does not: when the first header \<open>read\<close> fails, \<open>receive_file\<close> closes the file it has
  just created and returns \<open>-1\<close>; the empty file \<open>received_a\<close> stays.
\<close>

theorem header_read_failure_leaves_file:
  "receive_file
     \<lparr>name_malloc_ok = True, fopen_w_ok = True,
      segments_in = [\<lparr>hdr_read = (\<lambda>n. None), realloc = Null, seg_read = None,
                      fwrite_limit = None\<rparr>]\<rparr>
     Map.empty [0x61] 1
   = Returns (- 1, [received_prefix @ [0x61] \<mapsto> []])"
  by (simp add: receive_file_def receive_loop_def)

text \<open>
  C2, amended: let the receive loop have taken any number of the sender's segments, each
  into a block with room for its checksum byte, with more bytes still expected. If then
  the header read fails, or \<open>realloc\<close> returns \<open>NULL\<close> leaving the old block, or the
  segment read fails, or \<open>fwrite\<close> writes fewer items than it was given,
  \<open>receive_file\<close> returns \<open>-1\<close> and the destination file is left on disk, holding the
  data of the segments taken (and what \<open>fwrite\<close> managed to write). If the segment fits
  its block and its checksum byte is wrong, \<open>receive_file\<close> returns \<open>-1\<close> and no
  destination file is left. If the header declares the length 0 after a segment was
  taken, \<open>realloc(buffer, 0)\<close> frees the block, the exit frees it again, and nothing is
  promised.
\<close>

theorem receive_failure_exits:
  assumes "name_malloc_ok env" and "fopen_w_ok env"
    and "segments_in env = map (sent_segment slack) ds @ io # ios"
    and "0 < slack" and "\<forall>d \<in> set ds. 0 < length d \<and> length d \<le> 512"
    and "length (concat ds) < unat filesize"
  shows
   "(hdr_read io sizeof_message_header = None \<longrightarrow>
       receive_file env fs filename filesize
         = Returns (- 1, fs(received_prefix @ filename \<mapsto> concat ds)))
  \<and> (hdr_read io sizeof_message_header = Some header
       \<and> (ds = [] \<or> message_size header \<noteq> 0) \<and> realloc io = Null \<longrightarrow>
       receive_file env fs filename filesize
         = Returns (- 1, fs(received_prefix @ filename \<mapsto> concat ds)))
  \<and> (hdr_read io sizeof_message_header = Some header
       \<and> ds \<noteq> [] \<and> message_size header = 0 \<longrightarrow>
       receive_file env fs filename filesize = Undefined)
  \<and> (hdr_read io sizeof_message_header = Some header
       \<and> (ds = [] \<or> message_size header \<noteq> 0) \<and> realloc io = Block room
       \<and> seg_read io = None \<longrightarrow>
       receive_file env fs filename filesize
         = Returns (- 1, fs(received_prefix @ filename \<mapsto> concat ds)))
  \<and> (hdr_read io sizeof_message_header = Some header
       \<and> (ds = [] \<or> message_size header \<noteq> 0) \<and> realloc io = Block room
       \<and> seg_read io = Some bytes \<and> bytes \<noteq> []
       \<and> length bytes \<le> unat (message_size header + 1)
       \<and> length bytes \<le> unat (message_size header) + room
       \<and> checksum_ok bytes \<and> fwrite_limit io = Some k \<and> k < length bytes - 1 \<longrightarrow>
       receive_file env fs filename filesize
         = Returns (- 1, fs(received_prefix @ filename \<mapsto> concat ds @ take k (butlast bytes))))
  \<and> (hdr_read io sizeof_message_header = Some header
       \<and> (ds = [] \<or> message_size header \<noteq> 0) \<and> realloc io = Block room
       \<and> seg_read io = Some bytes \<and> bytes \<noteq> []
       \<and> length bytes \<le> unat (message_size header + 1)
       \<and> length bytes \<le> unat (message_size header) + room
       \<and> \<not> checksum_ok bytes \<longrightarrow>
       receive_file env fs filename filesize
         = Returns (- 1, fs(received_prefix @ filename := None)))"
proof -
  let ?dest = "received_prefix @ filename"
  let ?here = "receive_loop_from (ds \<noteq> []) filesize (of_nat (length (concat ds))) (concat ds)
          (io # ios)"
  from assms(6) have le: "length (concat ds) \<le> unat filesize" by simp
  note pre = receive_loop_after_segments [OF assms(4,5) le]
  from pre(2) assms(6) have lt: "(of_nat (length (concat ds)) :: size_t) < filesize"
    by (simp add: word_less_nat_alt)
  have loop: "receive_loop filesize 0 [] (segments_in env) = ?here"
    by (simp only: assms(3) pre(1))
  have kept: "receive_file env fs filename filesize = Returns (- 1, fs(?dest \<mapsto> out))"
    if "?here = Io_failure out" for out
    using assms(1,2) that by (simp add: receive_file_def loop del: receive_loop_from.simps)
  have removed: "receive_file env fs filename filesize = Returns (- 1, fs(?dest := None))"
    if "?here = Wrong_checksum"
    using assms(1,2) that by (simp add: receive_file_def loop del: receive_loop_from.simps)
  have fault: "receive_file env fs filename filesize = Undefined"
    if "?here = Double_free"
    using assms(1,2) that by (simp add: receive_file_def loop del: receive_loop_from.simps)
  have c1: "receive_file env fs filename filesize = Returns (- 1, fs(?dest \<mapsto> concat ds))"
    if "hdr_read io sizeof_message_header = None"
    using that lt by (intro kept) simp
  have c2: "receive_file env fs filename filesize = Returns (- 1, fs(?dest \<mapsto> concat ds))"
    if "hdr_read io sizeof_message_header = Some header"
      and "ds = [] \<or> message_size header \<noteq> 0" and "realloc io = Null"
    using that lt by (intro kept) auto
  have c3: "receive_file env fs filename filesize = Undefined"
    if "hdr_read io sizeof_message_header = Some header"
      and "ds \<noteq> []" and "message_size header = 0"
    using that lt by (intro fault) simp
  have c4: "receive_file env fs filename filesize = Returns (- 1, fs(?dest \<mapsto> concat ds))"
    if "hdr_read io sizeof_message_header = Some header"
      and "ds = [] \<or> message_size header \<noteq> 0" and "realloc io = Block room"
      and "seg_read io = None"
    using that lt by (intro kept) auto
  have c5: "receive_file env fs filename filesize
         = Returns (- 1, fs(?dest \<mapsto> concat ds @ take k (butlast bytes)))"
    if "hdr_read io sizeof_message_header = Some header"
      and "ds = [] \<or> message_size header \<noteq> 0" and "realloc io = Block room"
      and "seg_read io = Some bytes" and "bytes \<noteq> []"
      and "length bytes \<le> unat (message_size header + 1)"
      and "length bytes \<le> unat (message_size header) + room"
      and "checksum_ok bytes" and "fwrite_limit io = Some k" and "k < length bytes - 1"
    using that lt by (intro kept) (auto simp: fwrite_def)
  have c6: "receive_file env fs filename filesize = Returns (- 1, fs(?dest := None))"
    if "hdr_read io sizeof_message_header = Some header"
      and "ds = [] \<or> message_size header \<noteq> 0" and "realloc io = Block room"
      and "seg_read io = Some bytes" and "bytes \<noteq> []"
      and "length bytes \<le> unat (message_size header + 1)"
      and "length bytes \<le> unat (message_size header) + room"
      and "\<not> checksum_ok bytes"
    using that lt by (intro removed) auto
  show ?thesis
  proof (intro conjI)
    show "hdr_read io sizeof_message_header = None \<longrightarrow>
       receive_file env fs filename filesize = Returns (- 1, fs(?dest \<mapsto> concat ds))"
      by (intro impI, (elim conjE)?) (rule c1; assumption)
    show "hdr_read io sizeof_message_header = Some header
       \<and> (ds = [] \<or> message_size header \<noteq> 0) \<and> realloc io = Null \<longrightarrow>
       receive_file env fs filename filesize = Returns (- 1, fs(?dest \<mapsto> concat ds))"
      by (intro impI, (elim conjE)?) (rule c2; assumption)
    show "hdr_read io sizeof_message_header = Some header
       \<and> ds \<noteq> [] \<and> message_size header = 0 \<longrightarrow>
       receive_file env fs filename filesize = Undefined"
      by (intro impI, (elim conjE)?) (rule c3; assumption)
    show "hdr_read io sizeof_message_header = Some header
       \<and> (ds = [] \<or> message_size header \<noteq> 0) \<and> realloc io = Block room
       \<and> seg_read io = None \<longrightarrow>
       receive_file env fs filename filesize = Returns (- 1, fs(?dest \<mapsto> concat ds))"
      by (intro impI, (elim conjE)?) (rule c4; assumption)
    show "hdr_read io sizeof_message_header = Some header
       \<and> (ds = [] \<or> message_size header \<noteq> 0) \<and> realloc io = Block room
       \<and> seg_read io = Some bytes \<and> bytes \<noteq> []
       \<and> length bytes \<le> unat (message_size header + 1)
       \<and> length bytes \<le> unat (message_size header) + room
       \<and> checksum_ok bytes \<and> fwrite_limit io = Some k \<and> k < length bytes - 1 \<longrightarrow>
       receive_file env fs filename filesize
         = Returns (- 1, fs(?dest \<mapsto> concat ds @ take k (butlast bytes)))"
      by (intro impI, (elim conjE)?) (rule c5; assumption)
    show "hdr_read io sizeof_message_header = Some header
       \<and> (ds = [] \<or> message_size header \<noteq> 0) \<and> realloc io = Block room
       \<and> seg_read io = Some bytes \<and> bytes \<noteq> []
       \<and> length bytes \<le> unat (message_size header + 1)
       \<and> length bytes \<le> unat (message_size header) + room
       \<and> \<not> checksum_ok bytes \<longrightarrow>
       receive_file env fs filename filesize = Returns (- 1, fs(?dest := None))"
      by (intro impI, (elim conjE)?) (rule c6; assumption)
  qed
qed

text \<open>
  C2, amended, at a transfer whose second segment arrives with a wrong checksum after the
  first one was written: the destination file, present before, is gone.
\<close>

theorem receive_failure_exits_witness:
  "name_malloc_ok \<lparr>name_malloc_ok = True, fopen_w_ok = True,
      segments_in =
        [sent_segment 1 [0x41],
         \<lparr>hdr_read = (\<lambda>n. Some \<lparr>message_type = tag_f, message_size = 1\<rparr>),
          realloc = Block 1, seg_read = Some [0x42, 0x00], fwrite_limit = None\<rparr>]\<rparr>
   \<and> (0::nat) < 1 \<and> length (concat [[0x41 :: byte]]) < unat (2 :: size_t)
   \<and> \<not> checksum_ok [0x42, 0x00]
   \<and> receive_file \<lparr>name_malloc_ok = True, fopen_w_ok = True,
      segments_in =
        [sent_segment 1 [0x41],
         \<lparr>hdr_read = (\<lambda>n. Some \<lparr>message_type = tag_f, message_size = 1\<rparr>),
          realloc = Block 1, seg_read = Some [0x42, 0x00], fwrite_limit = None\<rparr>]\<rparr>
        [received_prefix @ [0x61] \<mapsto> [0x00]] [0x61] 2
       = Returns (- 1, [received_prefix @ [0x61] \<mapsto> [0x00]](received_prefix @ [0x61] := None))"
proof -
  let ?io = "\<lparr>hdr_read = (\<lambda>n. Some \<lparr>message_type = tag_f, message_size = 1\<rparr>),
          realloc = Block 1, seg_read = Some [0x42, 0x00 :: byte], fwrite_limit = None\<rparr>"
  let ?env = "\<lparr>name_malloc_ok = True, fopen_w_ok = True,
      segments_in = [sent_segment 1 [0x41], ?io]\<rparr>"
  have bad: "\<not> checksum_ok [0x42, 0x00]"
    by (simp add: checksum_ok_def checksum_def block_sum_def DIVISOR_def smod_int_alt_def)
  have "receive_file ?env [received_prefix @ [0x61] \<mapsto> [0x00]] [0x61] 2
       = Returns (- 1, [received_prefix @ [0x61] \<mapsto> [0x00]](received_prefix @ [0x61] := None))"
    using receive_failure_exits
      [where env = ?env and slack = 1 and ds = "[[0x41]]" and io = ?io and ios = "[]"
         and filesize = 2 and header = "\<lparr>message_type = tag_f, message_size = 1\<rparr>"
         and fs = "[received_prefix @ [0x61] \<mapsto> [0x00]]" and filename = "[0x61]"
         and room = 1 and bytes = "[0x42, 0x00]"] bad
    by simp
  with bad show ?thesis by simp
qed

section \<open>Short reads on the receive path\<close>




section \<open>The name of the destination file\<close>

lemma received_name_differs: "received_prefix @ filename \<noteq> filename"
proof
  assume "received_prefix @ filename = filename"
  then have "length (received_prefix @ filename) = length filename" by simp
  then show False by (simp add: received_prefix_def)
qed

lemma receive_file_touches_one_name:
  assumes "receive_file env fs filename filesize = Returns (rc, fs')"
    and "name \<noteq> received_prefix @ filename"
  shows "fs' name = fs name"
  using assms
  by (auto simp: receive_file_def Let_def split: if_splits loop_exit.splits)

text \<open>
  C9: whenever \<open>receive_file\<close> returns, the file under the requested name is as it was
  and only the file named \<open>"received_"\<close> followed by the requested name can have changed;
  when it returns 0, that file holds the data the loop wrote. The same holds for the
  whole client run.
\<close>

text \<open>
  C9: whenever \<open>receive_file\<close> returns, the file under the requested name is as it was
  and only the file named \<open>"received_"\<close> followed by the requested name can have changed;
  when it returns 0, that file holds the data the loop wrote. The same holds for the
  whole client run.
\<close>

theorem received_file_name:
  "(receive_file env fs filename filesize = Returns (rc, fs') \<longrightarrow>
      fs' filename = fs filename
      \<and> (\<forall>name. name \<noteq> received_prefix @ filename \<longrightarrow> fs' name = fs name)
      \<and> (rc = 0 \<longrightarrow>
           (\<exists>out. receive_loop filesize 0 [] (segments_in env) = Done out
                  \<and> fs' (received_prefix @ filename) = Some out)))
   \<and> (client_main cenv (filename # args) fs = Returns e \<longrightarrow>
        client_files e filename = fs filename
        \<and> (\<forall>name. name \<noteq> received_prefix @ filename \<longrightarrow> client_files e name = fs name))
   \<and> received_prefix = map (\<lambda>c. of_nat (of_char c)) ''received_''"
proof (intro conjI impI allI)
  assume r: "receive_file env fs filename filesize = Returns (rc, fs')"
  show "fs' filename = fs filename"
    using receive_file_touches_one_name [OF r] received_name_differs [of filename] by metis
  show "fs' name = fs name" if "name \<noteq> received_prefix @ filename" for name
    using receive_file_touches_one_name [OF r that] .
  show "\<exists>out. receive_loop filesize 0 [] (segments_in env) = Done out
                  \<and> fs' (received_prefix @ filename) = Some out" if "rc = 0"
    using r that by (auto simp: receive_file_def Let_def split: if_splits loop_exit.splits)
next
  assume c: "client_main cenv (filename # args) fs = Returns e"
  have *: "client_files e name = fs name" if "name \<noteq> received_prefix @ filename" for name
    using c that
    by (auto simp: client_main_def Let_def receive_file_touches_one_name
        split: if_splits prod.splits list.splits outcome.splits)
  show "client_files e filename = fs filename"
    using * [of filename] received_name_differs [of filename] by metis
  show "client_files e name = fs name" if "name \<noteq> received_prefix @ filename" for name
    using * [OF that] .
next
  show "received_prefix = map (\<lambda>c. of_nat (of_char c)) ''received_''"
    by (simp add: received_prefix_def)
qed

text \<open>
  C9 at a transfer of the one-byte file \<open>"A"\<close> requested as \<open>a\<close>, while a local file
  \<open>a\<close> exists: it is untouched, and \<open>received_a\<close> holds the byte.
\<close>
theorem received_file_name_witness:
  "receive_file \<lparr>name_malloc_ok = True, fopen_w_ok = True,
      segments_in =
        [\<lparr>hdr_read = (\<lambda>n. Some \<lparr>message_type = tag_f, message_size = 1\<rparr>),
          realloc = Block 1,
          seg_read = Some [0x41, 0x01], fwrite_limit = None\<rparr>]\<rparr>
      [[0x61] \<mapsto> [0x7A]] [0x61] 1
     = Returns (0, [[0x61] \<mapsto> [0x7A], received_prefix @ [0x61] \<mapsto> [0x41]])
   \<and> [[0x61] \<mapsto> [0x7A], received_prefix @ [0x61] \<mapsto> [0x41 :: byte]] [0x61] = Some [0x7A]
   \<and> (\<exists>out. receive_loop 1 0 []
          [\<lparr>hdr_read = (\<lambda>n. Some \<lparr>message_type = tag_f, message_size = 1\<rparr>),
          realloc = Block 1,
            seg_read = Some [0x41, 0x01], fwrite_limit = None\<rparr>] = Done out
        \<and> [[0x61] \<mapsto> [0x7A], received_prefix @ [0x61] \<mapsto> [0x41 :: byte]]
             (received_prefix @ [0x61]) = Some out)"
proof -
  let ?segs = "[\<lparr>hdr_read = (\<lambda>n. Some \<lparr>message_type = tag_f, message_size = 1\<rparr>),
          realloc = Block 1,
            seg_read = Some [0x41, 0x01 :: byte], fwrite_limit = None\<rparr>]"
  let ?env = "\<lparr>name_malloc_ok = True, fopen_w_ok = True, segments_in = ?segs\<rparr>"
  let ?fs' = "[[0x61] \<mapsto> [0x7A], received_prefix @ [0x61] \<mapsto> [0x41 :: byte]]"
  have r: "receive_file ?env [[0x61] \<mapsto> [0x7A]] [0x61] 1 = Returns (0, ?fs')"
    by (simp add: receive_file_def receive_loop_def checksum_ok_def checksum_def block_sum_def
        DIVISOR_def smod_int_alt_def fwrite_def sizeof_message_header_8)
  from received_file_name [of ?env "[[0x61] \<mapsto> [0x7A]]" "[0x61]" 1 0 ?fs'] r
  have "?fs' [0x61] = Some [0x7A]"
    and "\<exists>out. receive_loop 1 0 [] (segments_in ?env) = Done out
        \<and> ?fs' (received_prefix @ [0x61]) = Some out"
    by simp_all
  with r show ?thesis by simp
qed

section \<open>The round trip\<close>

lemma scast_of_nat_small:
  assumes "n < 2 ^ 31"
  shows "unat (scast (of_nat n :: c_int) :: size_t) = n"
proof -
  have "sint (of_nat n :: c_int) = int n"
  proof -
    have "sint (of_nat n :: c_int) = signed_take_bit 31 (int n)"
      by (simp add: signed_of_nat)
    also have "\<dots> = int n"
      using assms by (intro signed_take_bit_int_eq_self) simp_all
    finally show ?thesis by simp
  qed
  then have "(scast (of_nat n :: c_int) :: size_t) = of_nat n"
    by (simp add: scast_eq)
  moreover have "unat (of_nat n :: size_t) = n"
    using assms by (simp add: unat_of_nat)
  ultimately show ?thesis by simp
qed

lemma c_string_terminated:
  "0 \<notin> set filename \<Longrightarrow> c_string (filename @ [0]) = Some filename"
proof -
  assume "0 \<notin> set filename"
  then have "takeWhile (\<lambda>b. b \<noteq> 0) (filename @ [0 :: byte]) = filename"
    by (induction filename) auto
  then show ?thesis by (simp add: c_string_def)
qed

lemma size_as_int:
  fixes n :: nat
  assumes "0 < n" and "n < 2 ^ 32 - 1"
  shows "(of_nat n :: c_int) \<noteq> 0" and "(of_nat n :: c_int) \<noteq> - 1"
    and "unat (of_nat n :: c_int) = n"
proof -
  show u: "unat (of_nat n :: c_int) = n" using assms(2) by (simp add: unat_of_nat)
  show "(of_nat n :: c_int) \<noteq> 0"
  proof
    assume "(of_nat n :: c_int) = 0"
    then have "unat (of_nat n :: c_int) = 0" by simp
    with u assms(1) show False by simp
  qed
  show "(of_nat n :: c_int) \<noteq> - 1"
  proof
    assume "(of_nat n :: c_int) = - 1"
    then have "unat (of_nat n :: c_int) = unat (- 1 :: c_int)" by simp
    also have "unat (- 1 :: c_int) = 4294967295"
      by (simp add: unsigned_minus_1_eq_mask mask_eq_exp_minus_1)
    finally show False using u assms(2) by simp
  qed
qed


lemma mod_once_above:
  fixes x m :: int
  assumes "m \<le> x" and "x < 2 * m"
  shows "x mod m = x - m"
proof -
  have "x mod m = (x - m) mod m" by simp
  also have "\<dots> = x - m" using assms by (intro mod_pos_pos_trivial) simp_all
  finally show ?thesis .
qed

lemma mod_once_below:
  fixes x m :: int
  assumes "- m \<le> x" and "x < 0"
  shows "x mod m = x + m"
proof -
  have "x mod m = (x + m) mod m" by simp
  also have "\<dots> = x + m" using assms by (intro mod_pos_pos_trivial) simp_all
  finally show ?thesis .
qed

lemma scast_of_nat_large:
  assumes "2 ^ 31 \<le> n" and "n < 2 ^ 32"
  shows "n < unat (scast (of_nat n :: c_int) :: size_t)"
proof -
  have "(int n + 2 ^ 31) mod 2 ^ 32 = int n + 2 ^ 31 - 2 ^ 32"
    using assms by (intro mod_once_above) simp_all
  then have s: "sint (of_nat n :: c_int) = int n - 2 ^ 32"
    by (simp add: signed_of_nat signed_take_bit_eq_take_bit_shift take_bit_eq_mod)
  have "uint (scast (of_nat n :: c_int) :: size_t) = sint (of_nat n :: c_int) mod 2 ^ 64"
    by (simp only: scast_eq uint_word_of_int) simp
  also have "\<dots> = (int n - 2 ^ 32) mod 2 ^ 64"
    by (simp only: s)
  also have "\<dots> = int n - 2 ^ 32 + 2 ^ 64"
    using assms by (intro mod_once_below) simp_all
  finally have "int (unat (scast (of_nat n :: c_int) :: size_t)) = int n - 2 ^ 32 + 2 ^ 64"
    by simp
  then have "int n < int (unat (scast (of_nat n :: c_int) :: size_t))"
    by simp
  then show ?thesis by (simp only: of_nat_less_iff)
qed

text \<open>
  With a file of a size other than 0 and \<open>0xFFFFFFFF\<close>, a terminated name that passes the
  server's length check, and the user's consent, the session gets as far as
  \<open>receive_file\<close>, which meets exactly the segments of the file.
\<close>


lemma receive_loop_whole_file:
  assumes "0 < slack" and "length content \<le> unat filesize"
  shows "receive_loop filesize 0 [] (map (sent_segment slack) (segments_of content))
       = (if length content < unat filesize then Out_of_bounds else Done content)"
proof -
  have sizes: "\<forall>d \<in> set (segments_of content). 0 < length d \<and> length d \<le> 512"
    using segments_of_sizes by blast
  have le: "length (concat (segments_of content)) \<le> unat filesize"
    using assms(2) by (simp add: concat_segments_of)
  note pre = receive_loop_after_segments(1) [OF assms(1) sizes le, of "[]"]
    receive_loop_after_segments(2) [OF assms(1) sizes le]
  from pre(2) have u: "unat (of_nat (length content) :: size_t) = length content"
    by (simp add: concat_segments_of)
  have "((of_nat (length content) :: size_t) < filesize) = (length content < unat filesize)"
    by (simp add: word_less_nat_alt u)
  with pre(1) show ?thesis by (simp add: concat_segments_of)
qed

lemma receive_loop_no_slack:
  assumes "content \<noteq> []" and "0 < filesize"
  shows "receive_loop filesize 0 [] (map (sent_segment 0) (segments_of content))
       = Out_of_bounds"
proof -
  let ?d = "take 512 content"
  from assms(1) have d: "0 < length ?d" "length ?d \<le> 512" by simp_all
  have "receive_loop_from False filesize 0 []
          (sent_segment 0 ?d # map (sent_segment 0) (segments_of (drop 512 content)))
        = Out_of_bounds"
    using assms(2) d by (rule receive_loop_step_strict)
  then show ?thesis
    by (simp add: receive_loop_def segments_of_nonempty [OF assms(1)])
qed

text \<open>
  With a file of a size other than 0 and \<open>0xFFFFFFFF\<close>, a terminated name that passes the
  server's length check, and the user's consent, the session gets as far as
  \<open>receive_file\<close>, which meets exactly the segments of the file.
\<close>

lemma session_reaches_receive_file:
  assumes "server_fs filename = Some content"
    and "0 < length content" and "length content < 2 ^ 32 - 1"
    and "0 \<notin> set filename" and "length filename < 1024"
    and "response = 0x79 \<or> response = 0x59"
  shows "session slack server_fs client_fs filename (response # keys)
     = Client_ends
         (case receive_file
                 \<lparr>name_malloc_ok = True, fopen_w_ok = True,
                  segments_in = map (sent_segment slack) (segments_of content)\<rparr>
                 client_fs filename (scast (of_nat (length content) :: c_int)) of
            Undefined \<Rightarrow> Undefined
          | Returns (ret, fs') \<Rightarrow>
              Returns \<lparr>exit_code = EXIT_SUCCESS,
                requests = [Hdr \<lparr>message_type = tag_f,
                                  message_size = of_nat (length filename + 1)\<rparr>,
                            Raw (filename @ [0])],
                client_files = fs', stdin_left = keys\<rparr>)"
proof -
  define request where
    "request = \<lparr>message_type = tag_f, message_size = of_nat (length filename + 1)\<rparr>"
  define N :: c_int where "N = of_nat (length content)"
  let ?reply = "\<lparr>message_type = tag_f, message_size = N\<rparr>"
  let ?senv = "\<lparr>req_hdr = Some request, name_alloc_ok = True,
      req_payload = Some (filename @ [0]), stat_fails = False, fopen_r_ok = True,
      calloc_ok = True, disk_err_after = None, peer_gone_after = None\<rparr>"
  let ?segs = "concat (map frame (segments_of content))"
  let ?sock0 = "\<lparr>written = [], fail_after = None\<rparr>"
  let ?sock1 = "\<lparr>written = [Hdr ?reply], fail_after = None\<rparr>"
  have N: "N \<noteq> 0" "N \<noteq> - 1" "unat N = length content"
    unfolding N_def using size_as_int [OF assms(2,3)] by simp_all
  have rq: "request_file filename ?sock0
      = (0, \<lparr>written = [Hdr request, Raw (filename @ [0])], fail_after = None\<rparr>)"
    by (simp add: request_file_def sock_write_def request_def)
  have "unat (of_nat (length filename + 1) :: uint32_t)
      = (length filename + 1) mod 2 ^ LENGTH(32)"
    by (rule unat_of_nat)
  also have "\<dots> = length filename + 1"
    using assms(5) by simp
  finally have nlen: "unat (message_size request) = length filename + 1"
    by (simp add: request_def)
  have tag: "message_type request = tag_f"
    by (simp add: request_def)
  have acc: "fst (accept_file_request ?senv) = Some (filename @ [0])"
    using assms(5) by (simp add: accept_file_request_def MAX_ALLOCATION_SIZE_def nlen tag)
  have chk: "check_if_file_exist ?senv server_fs ?sock0 filename = (N, ?sock1)"
    using assms(1) by (simp add: check_if_file_exist_def stat_def sock_write_def N_def)
  have snd: "send_file ?senv server_fs ?sock1 filename N
      = Some (0, ?sock1\<lparr>written := written ?sock1 @ ?segs\<rparr>)"
    by (rule send_file_sends_segments) (simp_all add: assms(1) N(3))
  have srv: "serve_connection ?senv server_fs
      = Some (Connection_closed, \<lparr>written = Hdr ?reply # ?segs, fail_after = None\<rparr>)"
    using N(1,2)
    by (simp add: serve_connection_def acc c_string_terminated [OF assms(4)] chk snd)
  let ?renv = "\<lparr>name_malloc_ok = True, fopen_w_ok = True, segments_in = map (sent_segment slack) (segments_of content)\<rparr>"
  let ?cenv = "\<lparr>connect_ok = True, server_gone_after = None, reply_read = Some ?reply,
      stdin = response # keys, recv = ?renv\<rparr>"
  have cl: "client_main ?cenv [filename] client_fs
     = (case receive_file ?renv client_fs filename (scast N) of
          Undefined \<Rightarrow> Undefined
        | Returns (ret, fs') \<Rightarrow>
            Returns \<lparr>exit_code = EXIT_SUCCESS,
              requests = [Hdr request, Raw (filename @ [0])],
              client_files = fs', stdin_left = keys\<rparr>)"
    using N(1,2) assms(6)
    by (auto simp: client_main_def rq await_initial_server_reply_def split: outcome.splits)
  have "session slack server_fs client_fs filename (response # keys)
     = Client_ends
         (case receive_file ?renv client_fs filename (scast N) of
            Undefined \<Rightarrow> Undefined
          | Returns (ret, fs') \<Rightarrow>
              Returns \<lparr>exit_code = EXIT_SUCCESS,
                requests = [Hdr request, Raw (filename @ [0])],
                client_files = fs', stdin_left = keys\<rparr>)"
    by (simp add: session_def rq srv cl frames_in_frames)
  then show ?thesis unfolding request_def N_def .
qed

text \<open>
  C1, as stated: for every file on the server with a declared size \<open>N \<ge> 0\<close>, a complete
  session produces a destination file with the same content. It does not for \<open>N = 0\<close>: the
  reply for the empty file \<open>b\<close> carries the length 0, which the client reads as "file does
  not exist"; the session ends successfully, no segment fails, and no file was created on
  the client.
\<close>

text \<open>
  C1, as stated: for every file on the server with a declared size \<open>N \<ge> 0\<close>, a complete
  session produces a destination file with the same content. It does not for \<open>N = 0\<close>: the
  reply for the empty file \<open>b\<close> carries the length 0, which the client reads as "file does
  not exist"; the session ends successfully, no segment fails, and no file was created on
  the client.
\<close>

theorem empty_file_session_creates_nothing:
  "session 1 [[0x62] \<mapsto> []] Map.empty [0x62] [0x79]
     = Client_ends (Returns \<lparr>exit_code = EXIT_SUCCESS,
          requests = [Hdr \<lparr>message_type = tag_f, message_size = 2\<rparr>, Raw [0x62, 0]],
          client_files = Map.empty, stdin_left = [0x79]\<rparr>)"
  by (simp add: session_def request_file_def sock_write_def serve_connection_def
      accept_file_request_def MAX_ALLOCATION_SIZE_def c_string_def check_if_file_exist_def
      stat_def client_main_def await_initial_server_reply_def)

text \<open>
  C1, amended: for every file present on the server under a name of at most 1023 bytes,
  with content \<open>F\<close> of size \<open>N\<close>, \<open>0 < N < 2^31\<close>, a session over a connection that keeps
  message boundaries, in which no call fails, every block \<open>realloc\<close> returns has room for
  at least one byte beyond the size asked for, and the user answers \<open>'y'\<close> or \<open>'Y'\<close>, ends
  with the client file \<open>received_<name>\<close> holding exactly \<open>F\<close>, and changes no other
  client file; \<open>N\<close>, the size declared in the reply, is the size of \<open>F\<close>.
\<close>

theorem session_round_trip:
  assumes "server_fs filename = Some content"
    and "0 < length content" and "length content < 2 ^ 31"
    and "0 \<notin> set filename" and "length filename < 1024"
    and "response = 0x79 \<or> response = 0x59"
    and "0 < slack"
  shows "session slack server_fs client_fs filename (response # keys)
     = Client_ends (Returns \<lparr>exit_code = EXIT_SUCCESS,
          requests = [Hdr \<lparr>message_type = tag_f, message_size = of_nat (length filename + 1)\<rparr>,
                      Raw (filename @ [0])],
          client_files = client_fs(received_prefix @ filename \<mapsto> content),
          stdin_left = keys\<rparr>)
     \<and> length content = unat (of_nat (length content) :: uint32_t)"
proof -
  let ?size = "scast (of_nat (length content) :: c_int) :: size_t"
  have size: "unat ?size = length content"
    using assms(3) by (rule scast_of_nat_small)
  have "receive_loop ?size 0 [] (map (sent_segment slack) (segments_of content)) = Done content"
    using receive_loop_whole_file [OF assms(7), of content ?size] by (simp add: size)
  then have rcv: "receive_file
        \<lparr>name_malloc_ok = True, fopen_w_ok = True,
         segments_in = map (sent_segment slack) (segments_of content)\<rparr>
        client_fs filename ?size
      = Returns (0, client_fs(received_prefix @ filename \<mapsto> content))"
    by (simp add: receive_file_def)
  from assms(3) have small: "length content < 2 ^ 32 - 1" by simp
  have "length content = unat (of_nat (length content) :: uint32_t)"
    using small by (simp add: unat_of_nat)
  moreover have "session slack server_fs client_fs filename (response # keys)
     = Client_ends (Returns \<lparr>exit_code = EXIT_SUCCESS,
          requests = [Hdr \<lparr>message_type = tag_f, message_size = of_nat (length filename + 1)\<rparr>,
                      Raw (filename @ [0])],
          client_files = client_fs(received_prefix @ filename \<mapsto> content),
          stdin_left = keys\<rparr>)"
    by (subst session_reaches_receive_file [where content = content])
      (simp_all only: assms small rcv outcome.case prod.case simp_thms)
  ultimately show ?thesis by (rule conjI [rotated])
qed

text \<open>
  C1, amended, at the three-byte file \<open>41 42 FF\<close> requested as \<open>a\<close> and confirmed with
  \<open>'y'\<close>, with one byte of room beyond every size asked for.
\<close>

theorem session_round_trip_witness:
  "[[0x61] \<mapsto> [0x41, 0x42, 0xFF :: byte]] [0x61] = Some [0x41, 0x42, 0xFF]
   \<and> 0 < length [0x41, 0x42, 0xFF :: byte] \<and> length [0x41, 0x42, 0xFF :: byte] < 2 ^ 31
   \<and> 0 \<notin> set [0x61 :: byte] \<and> length [0x61 :: byte] < 1024 \<and> (0::nat) < 1
   \<and> session 1 [[0x61] \<mapsto> [0x41, 0x42, 0xFF]] Map.empty [0x61] [0x79]
     = Client_ends (Returns \<lparr>exit_code = EXIT_SUCCESS,
          requests = [Hdr \<lparr>message_type = tag_f, message_size = 2\<rparr>, Raw [0x61, 0]],
          client_files = [received_prefix @ [0x61] \<mapsto> [0x41, 0x42, 0xFF]],
          stdin_left = []\<rparr>)"
  using session_round_trip
    [where server_fs = "[[0x61] \<mapsto> [0x41, 0x42, 0xFF]]" and filename = "[0x61]"
       and content = "[0x41, 0x42, 0xFF]" and response = "0x79" and client_fs = Map.empty
       and keys = "[]" and slack = 1]
  by simp

text \<open>
  Why the amended statement asks for room in the blocks: the receiver adjusts its buffer
  to the \<open>L\<close> bytes a header declares and then stores \<open>L+1\<close> bytes in it (the sender
  allocates \<open>BLKSIZE+1\<close>). When the allocator gives exactly what is asked for, the first
  segment of any file is already stored past the end of its block.
\<close>

lemma no_slack_session_undefined:
  assumes "server_fs filename = Some content"
    and "0 < length content" and "length content < 2 ^ 31"
    and "0 \<notin> set filename" and "length filename < 1024"
    and "response = 0x79 \<or> response = 0x59"
  shows "session 0 server_fs client_fs filename (response # keys) = Client_ends Undefined"
proof -
  let ?size = "scast (of_nat (length content) :: c_int) :: size_t"
  have "unat ?size = length content"
    using assms(3) by (rule scast_of_nat_small)
  with assms(2) have "unat (0 :: size_t) < unat ?size" by simp
  then have pos: "0 < ?size" by (simp only: word_less_nat_alt)
  from assms(2) have ne: "content \<noteq> []" by auto
  have "receive_loop ?size 0 [] (map (sent_segment 0) (segments_of content)) = Out_of_bounds"
    using ne pos by (rule receive_loop_no_slack)
  then have rcv: "receive_file
        \<lparr>name_malloc_ok = True, fopen_w_ok = True,
         segments_in = map (sent_segment 0) (segments_of content)\<rparr>
        client_fs filename ?size = Undefined"
    by (simp add: receive_file_def)
  from assms(3) have small: "length content < 2 ^ 32 - 1" by simp
  show ?thesis
    by (subst session_reaches_receive_file [where content = content])
      (simp_all only: assms small rcv outcome.case simp_thms)
qed

text \<open>
  Why the amended statement stops below \<open>2^31\<close>: from there on the \<open>int\<close> that carries the
  size in the client's \<open>main\<close> is negative, \<open>receive_file\<close> gets it as a \<open>size_t\<close> above
  \<open>2^64 - 2^31\<close>, and after the last segment the loop goes on reading a stream that has
  ended.
\<close>

lemma large_file_session_undefined:
  assumes "server_fs filename = Some content"
    and "2 ^ 31 \<le> length content" and "length content < 2 ^ 32 - 1"
    and "0 \<notin> set filename" and "length filename < 1024"
    and "response = 0x79 \<or> response = 0x59"
    and "0 < slack"
  shows "session slack server_fs client_fs filename (response # keys) = Client_ends Undefined"
proof -
  let ?size = "scast (of_nat (length content) :: c_int) :: size_t"
  have size: "length content < unat ?size"
    using assms(2,3) by (intro scast_of_nat_large) simp_all
  then have "length content \<le> unat ?size" by simp
  from receive_loop_whole_file [OF assms(7) this] size
  have "receive_loop ?size 0 [] (map (sent_segment slack) (segments_of content)) = Out_of_bounds"
    by simp
  then have rcv: "receive_file
        \<lparr>name_malloc_ok = True, fopen_w_ok = True,
         segments_in = map (sent_segment slack) (segments_of content)\<rparr>
        client_fs filename ?size = Undefined"
    by (simp add: receive_file_def)
  have "(0::nat) < 2 ^ 31" by simp
  with assms(2) have pos: "0 < length content" by linarith
  show ?thesis
    by (subst session_reaches_receive_file [where content = content])
      (simp_all only: assms pos rcv outcome.case simp_thms)
qed

end
